theory Spec2Isabelle
  imports Main "HOL-Library.Word"
begin

section \<open>The JUCE value types RevisionItem is written against\<close>

text \<open>
  \<^verbatim>\<open>RevisionItem.cpp\<close> is written against three library types: \<^verbatim>\<open>var\<close> (a variant),
  \<^verbatim>\<open>ValueTree\<close> (a nullable handle to a node with a type name, named properties and
  child nodes) and the containers \<^verbatim>\<open>Array\<close> and \<^verbatim>\<open>OwnedArray\<close>, whose \<^verbatim>\<open>operator[]\<close>
  answers an index out of range with a default value (an invalid tree, a null pointer)
  instead of trapping. Where a tree is only read or handed on, it is taken by its
  content. Where the code must not share the object a caller's handle refers to
  (\<^verbatim>\<open>importDataForDelta\<close>), trees are handles into a store of objects, and
  \<^verbatim>\<open>createCopy()\<close> makes a new object there.
\<close>

type_synonym ident = string

text \<open>
  The alternatives of \<^verbatim>\<open>var\<close> that the trees read and written by RevisionItem hold:
  void, a 32-bit int and a String.
\<close>

datatype var = VVoid | VInt "32 word" | VString string

definition digitChar :: "nat \<Rightarrow> char" where
  "digitChar d = char_of (48 + d)"

function natToString :: "nat \<Rightarrow> string" where
  "natToString n =
     (if n < 10 then [digitChar n] else natToString (n div 10) @ [digitChar (n mod 10)])"
  by pat_completeness auto
termination
  by (relation "measure id") auto

text \<open>\<^verbatim>\<open>String (int)\<close>: the decimal text of a signed 32-bit value.\<close>

definition intToString :: "32 word \<Rightarrow> string" where
  "intToString w =
     (if sint w < 0 then CHR ''-'' # natToString (nat (- sint w)) else natToString (nat (sint w)))"

definition isWhitespace :: "char \<Rightarrow> bool" where
  "isWhitespace c = (c = CHR '' '' \<or> (9 \<le> (of_char c :: nat) \<and> (of_char c :: nat) \<le> 13))"

definition isDigit :: "char \<Rightarrow> bool" where
  "isDigit c = (48 \<le> (of_char c :: nat) \<and> (of_char c :: nat) \<le> 57)"

text \<open>
  The digit loop of \<^verbatim>\<open>CharacterFunctions::getIntValue\<close>: \<^verbatim>\<open>v = v * 10 + (c - '0')\<close>
  until the first character that is no digit, in 32-bit arithmetic.
\<close>

fun readDigits :: "32 word \<Rightarrow> string \<Rightarrow> 32 word" where
  "readDigits v [] = v"
| "readDigits v (c # cs) =
     (if isDigit c then readDigits (v * 10 + of_nat ((of_char c :: nat) - 48)) cs else v)"

text \<open>
  \<^verbatim>\<open>String::getIntValue\<close>, which parses as \<^verbatim>\<open>atoi\<close> does: leading whitespace, an
  optional sign, then digits.
\<close>

definition getIntValue :: "string \<Rightarrow> 32 word" where
  "getIntValue s =
     (case dropWhile isWhitespace s of
        [] \<Rightarrow> 0
      | c # cs \<Rightarrow>
          if c = CHR ''-'' then - readDigits 0 cs
          else if c = CHR ''+'' then readDigits 0 cs
          else readDigits 0 (c # cs))"

text \<open>\<^verbatim>\<open>var::operator int\<close> and \<^verbatim>\<open>var::operator String\<close>.\<close>

fun var_toInt :: "var \<Rightarrow> 32 word" where
  "var_toInt VVoid = 0"
| "var_toInt (VInt n) = n"
| "var_toInt (VString s) = getIntValue s"

fun var_toString :: "var \<Rightarrow> string" where
  "var_toString VVoid = []"
| "var_toString (VInt n) = intToString n"
| "var_toString (VString s) = s"

text \<open>
  The node a valid \<^verbatim>\<open>ValueTree\<close> refers to, and the handle itself: \<open>None\<close> is the
  invalid tree \<^verbatim>\<open>ValueTree()\<close>. A node's children are nodes, never invalid trees.
\<close>

datatype sharedObject =
  SharedObject (objType: ident) (objProperties: "(ident \<times> var) list")
    (objChildren: "sharedObject list")

type_synonym valueTree = "sharedObject option"

text \<open>\<^verbatim>\<open>ValueTree (type)\<close>: a valid tree with no property and no child.\<close>

definition newValueTree :: "ident \<Rightarrow> valueTree" where
  "newValueTree t = Some (SharedObject t [] [])"

definition isValid :: "valueTree \<Rightarrow> bool" where
  "isValid t = (t \<noteq> None)"

definition hasType :: "valueTree \<Rightarrow> ident \<Rightarrow> bool" where
  "hasType t x = (case t of None \<Rightarrow> False | Some ob \<Rightarrow> objType ob = x)"

text \<open>The first child of that type, or the invalid tree.\<close>

definition getChildWithName :: "valueTree \<Rightarrow> ident \<Rightarrow> valueTree" where
  "getChildWithName t x =
     (case t of None \<Rightarrow> None | Some ob \<Rightarrow> find (\<lambda>c. objType c = x) (objChildren ob))"

text \<open>\<^verbatim>\<open>getProperty (name, defaultValue)\<close>; \<^verbatim>\<open>getProperty (name)\<close> is the same with void.\<close>

definition getProperty :: "valueTree \<Rightarrow> ident \<Rightarrow> var \<Rightarrow> var" where
  "getProperty t name dflt =
     (case t of
        None \<Rightarrow> dflt
      | Some ob \<Rightarrow> (case map_of (objProperties ob) name of None \<Rightarrow> dflt | Some v \<Rightarrow> v))"

text \<open>\<^verbatim>\<open>NamedValueSet::set\<close>: replace the value of an existing name, else append.\<close>

fun namedValueSet_set :: "(ident \<times> var) list \<Rightarrow> ident \<Rightarrow> var \<Rightarrow> (ident \<times> var) list" where
  "namedValueSet_set [] name v = [(name, v)]"
| "namedValueSet_set ((k, w) # ps) name v =
     (if k = name then (k, v) # ps else (k, w) # namedValueSet_set ps name v)"

definition setProperty :: "valueTree \<Rightarrow> ident \<Rightarrow> var \<Rightarrow> valueTree" where
  "setProperty t name v =
     (case t of
        None \<Rightarrow> None
      | Some ob \<Rightarrow>
          Some (SharedObject (objType ob) (namedValueSet_set (objProperties ob) name v)
                  (objChildren ob)))"

text \<open>\<^verbatim>\<open>appendChild\<close>: an invalid child is not added.\<close>

definition appendChild :: "valueTree \<Rightarrow> valueTree \<Rightarrow> valueTree" where
  "appendChild t child =
     (case t of
        None \<Rightarrow> None
      | Some ob \<Rightarrow>
          (case child of
             None \<Rightarrow> Some ob
           | Some c \<Rightarrow> Some (SharedObject (objType ob) (objProperties ob) (objChildren ob @ [c]))))"

text \<open>The children a range-based \<^verbatim>\<open>for\<close> over a tree visits, in order.\<close>

definition childTrees :: "valueTree \<Rightarrow> valueTree list" where
  "childTrees t = (case t of None \<Rightarrow> [] | Some ob \<Rightarrow> map Some (objChildren ob))"

text \<open>
  Handles. A \<^verbatim>\<open>ValueTree\<close> refers to a reference-counted object, and every copy of
  the handle refers to the same object: a change made through one handle is seen
  through the others. The store holds the objects that handles refer to, each a whole
  tree, at the address that is its index; a handle is an address, or \<open>None\<close> for
  the invalid tree. A new object goes to the end of the store, so its address is one
  that no handle made before refers to.
\<close>

type_synonym valueTreeRef = "nat option"

type_synonym objectStore = "sharedObject list"

definition derefValueTree :: "objectStore \<Rightarrow> valueTreeRef \<Rightarrow> valueTree" where
  "derefValueTree s h =
     (case h of None \<Rightarrow> None | Some a \<Rightarrow> if a < length s then Some (s ! a) else None)"

text \<open>A handle of the store: the invalid tree, or the address of an object in it.\<close>

definition isHandleOf :: "objectStore \<Rightarrow> valueTreeRef \<Rightarrow> bool" where
  "isHandleOf s h = (case h of None \<Rightarrow> True | Some a \<Rightarrow> a < length s)"

definition allocObject :: "objectStore \<Rightarrow> sharedObject \<Rightarrow> valueTreeRef \<times> objectStore" where
  "allocObject s ob = (Some (length s), s @ [ob])"

text \<open>\<^verbatim>\<open>ValueTree (type)\<close> as a handle: a new object with no property and no child.\<close>

definition newValueTreeRef :: "objectStore \<Rightarrow> ident \<Rightarrow> valueTreeRef \<times> objectStore" where
  "newValueTreeRef s t = allocObject s (SharedObject t [] [])"

text \<open>
  \<^verbatim>\<open>ValueTree::createCopy\<close>: a handle to a new object with the type, the properties
  and (copies of) the children of the object referred to; the invalid tree for the
  invalid tree, with no new object.
\<close>

definition createCopy :: "objectStore \<Rightarrow> valueTreeRef \<Rightarrow> valueTreeRef \<times> objectStore" where
  "createCopy s h =
     (case derefValueTree s h of
        None \<Rightarrow> (None, s)
      | Some ob \<Rightarrow> allocObject s (SharedObject (objType ob) (objProperties ob) (objChildren ob)))"

text \<open>
  \<^verbatim>\<open>Array<ValueTree>::operator[]\<close>: the default value (an invalid tree) out of range.
  The same for an array of trees by content and for an array of handles.
\<close>

definition array_get :: "'a option list \<Rightarrow> int \<Rightarrow> 'a option" where
  "array_get xs i = (if 0 \<le> i \<and> i < int (length xs) then xs ! nat i else None)"

text \<open>
  \<^verbatim>\<open>Array::set\<close>: replaces the element in range, appends at an index beyond the end,
  does nothing at a negative index.
\<close>

definition array_set :: "'a option list \<Rightarrow> int \<Rightarrow> 'a option \<Rightarrow> 'a option list" where
  "array_set xs i v =
     (if 0 \<le> i \<and> i < int (length xs) then xs[nat i := v]
      else if 0 \<le> i then xs @ [v] else xs)"

text \<open>\<^verbatim>\<open>OwnedArray<T>::operator[]\<close>: a null pointer out of range.\<close>

definition ownedArray_get :: "'a list \<Rightarrow> int \<Rightarrow> 'a option" where
  "ownedArray_get xs i = (if 0 \<le> i \<and> i < int (length xs) then Some (xs ! nat i) else None)"

text \<open>A \<^verbatim>\<open>Uuid\<close>, represented by the text \<^verbatim>\<open>toString()\<close> gives for it.\<close>

datatype uuid = Uuid (uuid_toString: string)

section \<open>The collaborators of RevisionItem\<close>

text \<open>
  Only \<^verbatim>\<open>RevisionItem.cpp\<close> of the version-control core is among the sources. Its header
  and the classes it calls (Delta, DiffLogic, Pack, the TrackedItem base and the
  serialization keys) are modelled from the specification, each as far as the
  specification describes it. What the specification leaves open (the serialized form
  of a Delta, the set of type tags the DiffLogic factory knows, the identity the
  TrackedItem base gives a new object) is an argument of the operation that needs it.
\<close>

datatype error = NullPointerDereference

text \<open>
  Modelled from the spec: \<^verbatim>\<open>enum RevisionItem::Type\<close> of the missing header, "Added=0
  implied ordering, Removed, Changed, Undefined". The field is stored as the enum's
  underlying integer, which is what a \<^verbatim>\<open>static_cast<Type>\<close> of an int leaves in it.
\<close>

definition Added :: "32 word" where "Added = 0"
definition Removed :: "32 word" where "Removed = 1"
definition Changed :: "32 word" where "Changed = 2"
definition Undefined :: "32 word" where "Undefined = 3"

text \<open>
  Modelled from the spec: the keys of the persisted form (the missing
  \<^verbatim>\<open>Serialization::VCS\<close> identifiers), named as the specification's external interface
  names them.
\<close>

definition Serialization_VCS_revisionItem :: ident where
  "Serialization_VCS_revisionItem = ''revisionItem''"
definition Serialization_VCS_vcsUuid :: ident where
  "Serialization_VCS_vcsUuid = ''vcsUuid''"
definition Serialization_VCS_revisionItemType :: ident where
  "Serialization_VCS_revisionItemType = ''revisionItemType''"
definition Serialization_VCS_revisionItemName :: ident where
  "Serialization_VCS_revisionItemName = ''revisionItemName''"
definition Serialization_VCS_revisionItemDiffLogic :: ident where
  "Serialization_VCS_revisionItemDiffLogic = ''revisionItemDiffLogic''"

text \<open>
  Modelled from the spec: a Delta (the missing \<^verbatim>\<open>Delta.h\<close>) has a unique id and a kind
  tag; its payload is not part of it. \<^verbatim>\<open>createCopy()\<close> preserves the id and the kind.
\<close>

datatype delta = Delta (delta_getUuid: uuid) (delta_getType: ident)

definition delta_createCopy :: "delta \<Rightarrow> delta" where
  "delta_createCopy d = Delta (delta_getUuid d) (delta_getType d)"

text \<open>
  Modelled from the spec: of a DiffLogic (the missing \<^verbatim>\<open>DiffLogic.h\<close>) RevisionItem
  observes the type tag only. \<^verbatim>\<open>createLogicCopy\<close> "binds a new instance of the same
  concrete diff strategy as the source's".
\<close>

datatype diffLogic = DiffLogic (diffLogic_getType: ident)

text \<open>
  Modelled from the spec: a TrackedItem (the missing \<^verbatim>\<open>TrackedItem.h\<close>), as the
  capability contract exposes it: name, identity, the ordered deltas, the live
  serialized payload of each delta index, and its diff strategy.
\<close>

record trackedItem =
  ti_name :: string
  ti_uuid :: uuid
  ti_deltas :: "delta list"
  ti_deltaData :: "int \<Rightarrow> valueTree"
  ti_diffLogic :: diffLogic

definition ti_getVCSName :: "trackedItem \<Rightarrow> string" where
  "ti_getVCSName t = ti_name t"

definition ti_getUuid :: "trackedItem \<Rightarrow> uuid" where
  "ti_getUuid t = ti_uuid t"

definition ti_getNumDeltas :: "trackedItem \<Rightarrow> int" where
  "ti_getNumDeltas t = int (length (ti_deltas t))"

definition ti_getDelta :: "trackedItem \<Rightarrow> int \<Rightarrow> delta option" where
  "ti_getDelta t i = ownedArray_get (ti_deltas t) i"

definition ti_serializeDeltaData :: "trackedItem \<Rightarrow> int \<Rightarrow> valueTree" where
  "ti_serializeDeltaData t i = ti_deltaData t i"

definition createLogicCopy :: "trackedItem \<Rightarrow> diffLogic option" where
  "createLogicCopy t = Some (DiffLogic (diffLogic_getType (ti_diffLogic t)))"

text \<open>
  Modelled from the spec: the Pack (the missing \<^verbatim>\<open>Pack.h\<close>), "an append/overwrite-capable
  store keyed by (itemUuid, deltaUuid)", kept as the sequence of its writes, the newest
  first. \<^verbatim>\<open>setDeltaDataFor\<close> is an upsert where the last write wins;
  \<^verbatim>\<open>createDeltaDataFor\<close> is a lookup that answers a key never written with an empty
  result (the invalid tree).
\<close>

type_synonym pack = "((uuid \<times> uuid) \<times> valueTree) list"

definition setDeltaDataFor :: "pack \<Rightarrow> uuid \<Rightarrow> uuid \<Rightarrow> valueTree \<Rightarrow> pack" where
  "setDeltaDataFor p itemId deltaId data = ((itemId, deltaId), data) # p"

definition createDeltaDataFor :: "pack \<Rightarrow> uuid \<Rightarrow> uuid \<Rightarrow> valueTree" where
  "createDeltaDataFor p itemId deltaId =
     (case map_of p (itemId, deltaId) of None \<Rightarrow> None | Some data \<Rightarrow> data)"

section \<open>RevisionItem\<close>

text \<open>
  The fields of a RevisionItem. The constructor asserts that its Pack pointer is not
  null; the Pack is shared between items, so its contents are not a field: they are
  passed to, and returned by, the operations that read or write the Pack. The pending
  payloads \<open>deltasData\<close> are trees by content (\<open>revisionItem\<close>) or handles into a
  store (\<open>revisionItemRefs\<close>, for \<^verbatim>\<open>importDataForDelta\<close>); \<open>payloadContents\<close>
  reads the second as the first.
\<close>

record 'v revisionItemOf =
  vcsItemType :: "32 word"
  description :: string
  vcsUuid :: uuid
  logic :: "diffLogic option"
  deltas :: "delta list"
  deltasData :: "'v list"

type_synonym revisionItem = "valueTree revisionItemOf"

type_synonym revisionItemRefs = "valueTreeRef revisionItemOf"

definition payloadContents :: "objectStore \<Rightarrow> revisionItemRefs \<Rightarrow> revisionItem" where
  "payloadContents s r =
     \<lparr>vcsItemType = vcsItemType r, description = description r, vcsUuid = vcsUuid r,
      logic = logic r, deltas = deltas r, deltasData = map (derefValueTree s) (deltasData r)\<rparr>"

definition getUuid :: "revisionItem \<Rightarrow> uuid" where
  "getUuid r = vcsUuid r"

definition getType :: "revisionItem \<Rightarrow> 32 word" where
  "getType r = vcsItemType r"

definition getNumDeltas :: "revisionItem \<Rightarrow> int" where
  "getNumDeltas r = int (length (deltas r))"

definition getDelta :: "revisionItem \<Rightarrow> int \<Rightarrow> delta option" where
  "getDelta r index = ownedArray_get (deltas r) index"

definition getVCSName :: "revisionItem \<Rightarrow> string" where
  "getVCSName r = description r"

definition getDiffLogic :: "revisionItem \<Rightarrow> diffLogic option" where
  "getDiffLogic r = logic r"

text \<open>
  Modelled from the spec: \<^verbatim>\<open>serializeVCSUuid\<close> and \<^verbatim>\<open>deserializeVCSUuid\<close> of the
  TrackedItem base write the identity into the tree and restore it from there.
\<close>

definition serializeVCSUuid :: "revisionItem \<Rightarrow> valueTree \<Rightarrow> valueTree" where
  "serializeVCSUuid r tree =
     setProperty tree Serialization_VCS_vcsUuid (VString (uuid_toString (getUuid r)))"

definition deserializeVCSUuid :: "valueTree \<Rightarrow> revisionItem \<Rightarrow> revisionItem" where
  "deserializeVCSUuid tree r =
     r\<lparr>vcsUuid := Uuid (var_toString
          (getProperty tree Serialization_VCS_vcsUuid (VString (uuid_toString (vcsUuid r)))))\<rparr>"

subsection \<open>Construction\<close>

text \<open>
  The loop of the constructor, from index \<open>i\<close> on: a copy of each delta of the
  source and the source's payload for it.
\<close>

function copyDeltas :: "trackedItem \<Rightarrow> int \<Rightarrow> revisionItem \<Rightarrow> error + revisionItem" where
  "copyDeltas t i r =
     (if i < ti_getNumDeltas t then
        (case ti_getDelta t i of
           None \<Rightarrow> Inl NullPointerDereference
         | Some targetDelta \<Rightarrow>
             copyDeltas t (i + 1)
               (r\<lparr>deltas := deltas r @ [delta_createCopy targetDelta],
                  deltasData := deltasData r @ [ti_serializeDeltaData t i]\<rparr>))
      else Inr r)"
  by pat_completeness auto
termination
  by (relation "measure (\<lambda>(t, i, r). nat (ti_getNumDeltas t - i))") auto

text \<open>
  \<^verbatim>\<open>RevisionItem (packPtr, type, targetToCopy)\<close>. \<open>u0\<close> is the identity the
  TrackedItem base gives the new object; \<open>None\<close> is \<^verbatim>\<open>targetToCopy == nullptr\<close>.
\<close>

definition RevisionItem :: "uuid \<Rightarrow> 32 word \<Rightarrow> trackedItem option \<Rightarrow> error + revisionItem" where
  "RevisionItem u0 type targetToCopy =
     (let this = \<lparr>vcsItemType = type, description = [], vcsUuid = u0, logic = None,
                   deltas = [], deltasData = []\<rparr>
      in case targetToCopy of
           None \<Rightarrow> Inr this
         | Some t \<Rightarrow>
             copyDeltas t 0
               (this\<lparr>description := ti_getVCSName t, vcsUuid := ti_getUuid t,
                     logic := createLogicCopy t\<rparr>))"

subsection \<open>Pending payloads and the Pack\<close>

function flushLoop :: "revisionItem \<Rightarrow> int \<Rightarrow> pack \<Rightarrow> error + pack" where
  "flushLoop r i p =
     (if i < int (length (deltasData r)) then
        (case ownedArray_get (deltas r) i of
           None \<Rightarrow> Inl NullPointerDereference
         | Some d \<Rightarrow>
             flushLoop r (i + 1)
               (setDeltaDataFor p (getUuid r) (delta_getUuid d) (array_get (deltasData r) i)))
      else Inr p)"
  by pat_completeness auto
termination
  by (relation "measure (\<lambda>(r, i, p). nat (int (length (deltasData r)) - i))") auto

definition flushData :: "revisionItem \<Rightarrow> pack \<Rightarrow> error + (revisionItem \<times> pack)" where
  "flushData r p =
     (case flushLoop r 0 p of
        Inl e \<Rightarrow> Inl e
      | Inr p' \<Rightarrow> Inr (r\<lparr>deltasData := []\<rparr>, p'))"

text \<open>
  The inner \<^verbatim>\<open>while\<close> of \<^verbatim>\<open>importDataForDelta\<close>: placeholders up to index \<open>i\<close>,
  each a new \<^verbatim>\<open>ValueTree ("dummy")\<close>.
\<close>

function growDeltasData :: "objectStore \<Rightarrow> valueTreeRef list \<Rightarrow> int \<Rightarrow> valueTreeRef list \<times> objectStore" where
  "growDeltasData s xs i =
     (if int (length xs) \<le> i then
        growDeltasData (snd (newValueTreeRef s ''dummy'')) (xs @ [fst (newValueTreeRef s ''dummy'')]) i
      else (xs, s))"
  by pat_completeness auto
termination
  by (relation "measure (\<lambda>(s, xs, i). nat (i + 1 - int (length xs)))") auto

text \<open>
  \<^verbatim>\<open>importDataForDelta (deltaDataToCopy, deltaUuid)\<close>, on handles: \<open>deltaDataToCopy\<close>
  is the caller's handle, \<open>s\<close> the store before the call; the result is the item
  and the store after it.
\<close>

function importLoop ::
  "objectStore \<Rightarrow> valueTreeRef \<Rightarrow> string \<Rightarrow> revisionItemRefs \<Rightarrow> int \<Rightarrow>
   error + (revisionItemRefs \<times> objectStore)" where
  "importLoop s deltaDataToCopy deltaUuid r i =
     (if i < int (length (deltas r)) then
        (case ownedArray_get (deltas r) i of
           None \<Rightarrow> Inl NullPointerDereference
         | Some d \<Rightarrow>
             if uuid_toString (delta_getUuid d) = deltaUuid then
               (let grown = growDeltasData s (deltasData r) i;
                    deepCopy = createCopy (snd grown) deltaDataToCopy
                in Inr (r\<lparr>deltasData := array_set (fst grown) i (fst deepCopy)\<rparr>, snd deepCopy))
             else importLoop s deltaDataToCopy deltaUuid r (i + 1))
      else Inr (r, s))"
  by pat_completeness auto
termination
  by (relation "measure (\<lambda>(s, c, u, r, i). nat (int (length (deltas r)) - i))") auto

definition importDataForDelta ::
  "objectStore \<Rightarrow> valueTreeRef \<Rightarrow> string \<Rightarrow> revisionItemRefs \<Rightarrow>
   error + (revisionItemRefs \<times> objectStore)" where
  "importDataForDelta s deltaDataToCopy deltaUuid r = importLoop s deltaDataToCopy deltaUuid r 0"

definition serializeDeltaData :: "revisionItem \<Rightarrow> pack \<Rightarrow> int \<Rightarrow> error + valueTree" where
  "serializeDeltaData r p deltaIndex =
     (if deltaIndex < int (length (deltasData r)) then Inr (array_get (deltasData r) deltaIndex)
      else
        (case ownedArray_get (deltas r) deltaIndex of
           None \<Rightarrow> Inl NullPointerDereference
         | Some d \<Rightarrow> Inr (createDeltaDataFor p (getUuid r) (delta_getUuid d))))"

subsection \<open>Serializable\<close>

text \<open>
  \<open>delta_serialize\<close> stands for \<^verbatim>\<open>Delta::serialize\<close>, \<open>delta_deserialize\<close> for
  \<^verbatim>\<open>new Delta ({}, {})\<close> followed by \<^verbatim>\<open>deserialize (e)\<close>, and \<open>createLogicFor\<close>
  for the DiffLogic factory, whose result may be null. A \<^verbatim>\<open>jassert\<close> (on the Pack
  pointer in the constructor, on the logic tag in \<^verbatim>\<open>deserialize\<close>) reports in a debug
  build and changes no result; it has no counterpart here.
\<close>

fun appendDeltas :: "(delta \<Rightarrow> valueTree) \<Rightarrow> valueTree \<Rightarrow> delta list \<Rightarrow> valueTree" where
  "appendDeltas delta_serialize tree [] = tree"
| "appendDeltas delta_serialize tree (d # ds) =
     appendDeltas delta_serialize (appendChild tree (delta_serialize d)) ds"

definition serialize :: "(delta \<Rightarrow> valueTree) \<Rightarrow> revisionItem \<Rightarrow> error + valueTree" where
  "serialize delta_serialize r =
     (let tree = newValueTree Serialization_VCS_revisionItem;
          tree = serializeVCSUuid r tree;
          tree = setProperty tree Serialization_VCS_revisionItemType (VInt (getType r));
          tree = setProperty tree Serialization_VCS_revisionItemName (VString (getVCSName r))
      in case getDiffLogic r of
           None \<Rightarrow> Inl NullPointerDereference
         | Some l \<Rightarrow>
             (let tree = setProperty tree Serialization_VCS_revisionItemDiffLogic
                           (VString (diffLogic_getType l))
              in Inr (appendDeltas delta_serialize tree (deltas r))))"

definition reset :: "revisionItem \<Rightarrow> revisionItem" where
  "reset r = r\<lparr>deltas := [], description := [], vcsItemType := Undefined\<rparr>"

fun readDeltas :: "(valueTree \<Rightarrow> delta) \<Rightarrow> valueTree list \<Rightarrow> revisionItem \<Rightarrow> revisionItem" where
  "readDeltas delta_deserialize [] r = r"
| "readDeltas delta_deserialize (e # es) r =
     readDeltas delta_deserialize es (r\<lparr>deltas := deltas r @ [delta_deserialize e]\<rparr>)"

definition deserialize ::
  "(valueTree \<Rightarrow> delta) \<Rightarrow> (string \<Rightarrow> diffLogic option) \<Rightarrow> valueTree \<Rightarrow> revisionItem \<Rightarrow> revisionItem" where
  "deserialize delta_deserialize createLogicFor tree r0 =
     (let r = reset r0;
          root = (if hasType tree Serialization_VCS_revisionItem then tree
                  else getChildWithName tree Serialization_VCS_revisionItem)
      in if \<not> isValid root then r
         else
           (let r = deserializeVCSUuid root r;
                r = r\<lparr>description :=
                       var_toString (getProperty root Serialization_VCS_revisionItemName (VString []))\<rparr>;
                type = var_toInt (getProperty root Serialization_VCS_revisionItemType (VInt Undefined));
                r = r\<lparr>vcsItemType := type\<rparr>;
                logicType = var_toString (getProperty root Serialization_VCS_revisionItemDiffLogic VVoid);
                r = r\<lparr>logic := createLogicFor logicType\<rparr>
            in readDeltas delta_deserialize (childTrees root) r))"

text \<open>
  A Delta codec and a DiffLogic factory to instantiate the arguments above with: a
  delta is written as a node carrying its id and its kind, and every tag names a
  strategy.
\<close>

definition sampleDeltaSerialize :: "delta \<Rightarrow> valueTree" where
  "sampleDeltaSerialize d =
     Some (SharedObject ''delta''
       [(''deltaId'', VString (uuid_toString (delta_getUuid d))),
        (''deltaType'', VString (delta_getType d))] [])"

definition sampleDeltaDeserialize :: "valueTree \<Rightarrow> delta" where
  "sampleDeltaDeserialize e =
     Delta (Uuid (var_toString (getProperty e ''deltaId'' VVoid)))
       (var_toString (getProperty e ''deltaType'' VVoid))"

definition sampleCreateLogicFor :: "string \<Rightarrow> diffLogic option" where
  "sampleCreateLogicFor tag = Some (DiffLogic tag)"

section \<open>Sample inputs\<close>

text \<open>
  Concrete values at which the theorems below are instantiated: a live tracked item
  with two deltas, the uncommitted RevisionItem that snapshots it, and a tracked item
  that exposes one delta id at two indices, with its snapshot.
\<close>

definition sampleTrackedItem :: trackedItem where
  "sampleTrackedItem =
     \<lparr>ti_name = ''Piano'', ti_uuid = Uuid ''a1'',
      ti_deltas = [Delta (Uuid ''d1'') ''trackPath'', Delta (Uuid ''d2'') ''trackMute''],
      ti_deltaData = (\<lambda>i. if i = 0 then newValueTree ''path'' else newValueTree ''mute''),
      ti_diffLogic = DiffLogic ''pianoTrack''\<rparr>"

definition sampleItem :: revisionItem where
  "sampleItem =
     \<lparr>vcsItemType = Changed, description = ''Piano'', vcsUuid = Uuid ''a1'',
      logic = Some (DiffLogic ''pianoTrack''),
      deltas = [Delta (Uuid ''d1'') ''trackPath'', Delta (Uuid ''d2'') ''trackMute''],
      deltasData = [newValueTree ''path'', newValueTree ''mute'']\<rparr>"

definition twinItem :: revisionItem where
  "twinItem =
     \<lparr>vcsItemType = Changed, description = ''Piano'', vcsUuid = Uuid ''a1'',
      logic = Some (DiffLogic ''pianoTrack''),
      deltas = [Delta (Uuid ''d1'') ''trackPath'', Delta (Uuid ''d1'') ''trackPath''],
      deltasData = [newValueTree ''first'', newValueTree ''second'']\<rparr>"

definition twinTrackedItem :: trackedItem where
  "twinTrackedItem =
     \<lparr>ti_name = ''Piano'', ti_uuid = Uuid ''a1'',
      ti_deltas = [Delta (Uuid ''d1'') ''trackPath'', Delta (Uuid ''d1'') ''trackPath''],
      ti_deltaData = (\<lambda>i. if i = 0 then newValueTree ''first'' else newValueTree ''second''),
      ti_diffLogic = DiffLogic ''pianoTrack''\<rparr>"

text \<open>
  For \<^verbatim>\<open>importDataForDelta\<close>: a store holding the caller's payload at address 0, and
  the sample item on handles, after a flush (no pending payload).
\<close>

definition sampleStore :: objectStore where
  "sampleStore = [SharedObject ''data'' [(''value'', VInt 7)] []]"

definition sampleRefsItem :: revisionItemRefs where
  "sampleRefsItem =
     \<lparr>vcsItemType = Changed, description = ''Piano'', vcsUuid = Uuid ''a1'',
      logic = Some (DiffLogic ''pianoTrack''),
      deltas = [Delta (Uuid ''d1'') ''trackPath'', Delta (Uuid ''d2'') ''trackMute''],
      deltasData = []\<rparr>"

section \<open>Facts about the loops\<close>

declare copyDeltas.simps [simp del]
declare flushLoop.simps [simp del]
declare growDeltasData.simps [simp del]
declare importLoop.simps [simp del]

text \<open>The constructor's loop never fails and appends one entry per delta of the source.\<close>

lemma copyDeltas_eq:
  "0 \<le> i \<Longrightarrow>
   copyDeltas t i r =
     Inr (r\<lparr>deltas := deltas r @ map delta_createCopy (drop (nat i) (ti_deltas t)),
            deltasData := deltasData r @ map (\<lambda>k. ti_deltaData t (int k)) [nat i..<length (ti_deltas t)]\<rparr>)"
proof (induction t i r rule: copyDeltas.induct)
  case (1 t i r)
  show ?case
  proof (cases "i < ti_getNumDeltas t")
    case True
    with "1.prems" have lt: "nat i < length (ti_deltas t)"
      by (simp add: ti_getNumDeltas_def)
    have get: "ti_getDelta t i = Some (ti_deltas t ! nat i)"
      using lt "1.prems" by (simp add: ti_getDelta_def ownedArray_get_def)
    have nat_suc: "nat (i + 1) = Suc (nat i)"
      using "1.prems" by simp
    have dr: "drop (nat i) (ti_deltas t) = ti_deltas t ! nat i # drop (Suc (nat i)) (ti_deltas t)"
      using lt by (simp add: Cons_nth_drop_Suc)
    have up: "[nat i..<length (ti_deltas t)] = nat i # [Suc (nat i)..<length (ti_deltas t)]"
      using lt by (simp add: upt_conv_Cons)
    have "copyDeltas t i r =
            copyDeltas t (i + 1)
              (r\<lparr>deltas := deltas r @ [delta_createCopy (ti_deltas t ! nat i)],
                 deltasData := deltasData r @ [ti_serializeDeltaData t i]\<rparr>)"
      using True get by (subst copyDeltas.simps) simp
    also have "\<dots> = Inr (r\<lparr>deltas := deltas r @ map delta_createCopy (drop (nat i) (ti_deltas t)),
            deltasData := deltasData r @ map (\<lambda>k. ti_deltaData t (int k)) [nat i..<length (ti_deltas t)]\<rparr>)"
      using "1.IH" [OF True get] "1.prems"
      by (simp add: nat_suc dr up ti_serializeDeltaData_def)
    finally show ?thesis .
  next
    case False
    then have "length (ti_deltas t) \<le> nat i"
      using "1.prems" by (simp add: ti_getNumDeltas_def)
    then show ?thesis
      using False by (subst copyDeltas.simps) simp
  qed
qed

text \<open>
  The flush loop returns only when every pending payload has a delta, and then it has
  written the pending payloads in index order.
\<close>

lemma flushLoop_bound:
  "flushLoop r i p = Inr p' \<Longrightarrow> 0 \<le> i \<Longrightarrow> i \<le> int (length (deltas r)) \<Longrightarrow>
   length (deltasData r) \<le> length (deltas r)"
proof (induction r i p rule: flushLoop.induct)
  case (1 r i p)
  show ?case
  proof (cases "i < int (length (deltasData r))")
    case True
    show ?thesis
    proof (cases "ownedArray_get (deltas r) i")
      case None
      with True "1.prems"(1) show ?thesis
        by (subst (asm) flushLoop.simps) simp
    next
      case (Some d)
      then have lt: "i < int (length (deltas r))"
        by (simp add: ownedArray_get_def split: if_splits)
      have "flushLoop r (i + 1)
              (setDeltaDataFor p (getUuid r) (delta_getUuid d) (array_get (deltasData r) i)) = Inr p'"
        using "1.prems"(1) True Some by (subst (asm) flushLoop.simps) simp
      from "1.IH" [OF True Some this] "1.prems"(2) lt show ?thesis by simp
    qed
  next
    case False
    with "1.prems" show ?thesis by simp
  qed
qed

lemma flushLoop_eq:
  "0 \<le> i \<Longrightarrow> length (deltasData r) \<le> length (deltas r) \<Longrightarrow>
   flushLoop r i p =
     Inr (rev (map (\<lambda>k. ((getUuid r, delta_getUuid (deltas r ! k)), deltasData r ! k))
                [nat i..<length (deltasData r)]) @ p)"
proof (induction r i p rule: flushLoop.induct)
  case (1 r i p)
  show ?case
  proof (cases "i < int (length (deltasData r))")
    case True
    with "1.prems" have lt: "nat i < length (deltasData r)" by simp
    have get: "ownedArray_get (deltas r) i = Some (deltas r ! nat i)"
      using lt "1.prems" by (simp add: ownedArray_get_def)
    have up: "[nat i..<length (deltasData r)] = nat i # [Suc (nat i)..<length (deltasData r)]"
      using lt by (simp add: upt_conv_Cons)
    have nat_suc: "nat (i + 1) = Suc (nat i)"
      using "1.prems" by simp
    have "flushLoop r i p = flushLoop r (i + 1)
            (setDeltaDataFor p (getUuid r) (delta_getUuid (deltas r ! nat i)) (array_get (deltasData r) i))"
      using True get by (subst flushLoop.simps) simp
    also have "\<dots> = Inr (rev (map (\<lambda>k. ((getUuid r, delta_getUuid (deltas r ! k)), deltasData r ! k))
                [nat i..<length (deltasData r)]) @ p)"
      using "1.IH" [OF True get] "1.prems" True
      by (simp add: nat_suc up setDeltaDataFor_def array_get_def)
    finally show ?thesis .
  next
    case False
    then show ?thesis by (subst flushLoop.simps) simp
  qed
qed

lemma map_of_writes:
  "i < n \<Longrightarrow> \<forall>j. i < j \<and> j < n \<longrightarrow> key j \<noteq> key i \<Longrightarrow>
   map_of (rev (map (\<lambda>k. (key k, val k)) [0..<n]) @ p) (key i) = Some (val i)"
proof (induction n)
  case 0
  then show ?case by simp
next
  case (Suc n)
  show ?case
  proof (cases "i = n")
    case True
    then show ?thesis by simp
  next
    case False
    with Suc.prems(1) have lt: "i < n" by simp
    from Suc.prems(2) lt have "key n \<noteq> key i" by blast
    then have ne: "key i \<noteq> key n" by (rule not_sym)
    from Suc.prems(2) have "\<forall>j. i < j \<and> j < n \<longrightarrow> key j \<noteq> key i" by simp
    from Suc.IH [OF lt this] ne show ?thesis by simp
  qed
qed

text \<open>
  The Pack as modelled meets the invariant the specification states for it: a key reads
  back the payload last written to it, and a write leaves every other key alone.
\<close>

lemma createDeltaDataFor_written:
  "createDeltaDataFor (setDeltaDataFor p itemId deltaId data) itemId deltaId = data"
  by (simp add: createDeltaDataFor_def setDeltaDataFor_def)

lemma createDeltaDataFor_other_key:
  "(itemId', deltaId') \<noteq> (itemId, deltaId) \<Longrightarrow>
   createDeltaDataFor (setDeltaDataFor p itemId deltaId data) itemId' deltaId' =
   createDeltaDataFor p itemId' deltaId'"
  by (auto simp: createDeltaDataFor_def setDeltaDataFor_def)

text \<open>
  The import loop: the placeholders and their objects, no match, first match, and the
  result in closed form. Objects already in the store are read as before when the
  store grows.
\<close>

lemma growDeltasData_eq:
  "growDeltasData s xs i =
     (xs @ map Some [length s..<length s + nat (i + 1 - int (length xs))],
      s @ replicate (nat (i + 1 - int (length xs))) (SharedObject ''dummy'' [] []))"
proof (induction s xs i rule: growDeltasData.induct)
  case (1 s xs i)
  show ?case
  proof (cases "int (length xs) \<le> i")
    case True
    define k where "k = nat (i + 1 - int (length (xs @ [Some (length s)])))"
    have k: "nat (i + 1 - int (length xs)) = Suc k"
      using True by (simp add: k_def)
    have new: "newValueTreeRef s ''dummy'' = (Some (length s), s @ [SharedObject ''dummy'' [] []])"
      by (simp add: newValueTreeRef_def allocObject_def)
    have "growDeltasData s xs i =
            growDeltasData (s @ [SharedObject ''dummy'' [] []]) (xs @ [Some (length s)]) i"
      using True by (subst growDeltasData.simps) (simp add: new)
    also have "\<dots> = ((xs @ [Some (length s)]) @ map Some [Suc (length s)..<Suc (length s) + k],
        (s @ [SharedObject ''dummy'' [] []]) @ replicate k (SharedObject ''dummy'' [] []))"
      using "1.IH" [OF True] by (simp add: new k_def)
    also have "\<dots> = (xs @ map Some [length s..<length s + Suc k],
        s @ replicate (Suc k) (SharedObject ''dummy'' [] []))"
      by (simp add: upt_conv_Cons)
    finally show ?thesis by (simp only: k)
  next
    case False
    then show ?thesis by (subst growDeltasData.simps) simp
  qed
qed

lemma importLoop_no_match:
  "0 \<le> i \<Longrightarrow>
   \<forall>k. nat i \<le> k \<and> k < length (deltas r) \<longrightarrow> uuid_toString (delta_getUuid (deltas r ! k)) \<noteq> u \<Longrightarrow>
   importLoop s c u r i = Inr (r, s)"
proof (induction s c u r i rule: importLoop.induct)
  case (1 s c u r i)
  show ?case
  proof (cases "i < int (length (deltas r))")
    case True
    with "1.prems" have lt: "nat i < length (deltas r)" by simp
    have get: "ownedArray_get (deltas r) i = Some (deltas r ! nat i)"
      using lt "1.prems" by (simp add: ownedArray_get_def)
    have ne: "uuid_toString (delta_getUuid (deltas r ! nat i)) \<noteq> u"
      using "1.prems"(2) lt by blast
    have "importLoop s c u r i = importLoop s c u r (i + 1)"
      using True get ne by (subst importLoop.simps) simp
    also have "\<dots> = Inr (r, s)"
    proof (rule "1.IH" [OF True get ne])
      show "0 \<le> i + 1" using "1.prems" by simp
      show "\<forall>k. nat (i + 1) \<le> k \<and> k < length (deltas r) \<longrightarrow>
              uuid_toString (delta_getUuid (deltas r ! k)) \<noteq> u"
      proof (intro allI impI)
        fix k
        assume "nat (i + 1) \<le> k \<and> k < length (deltas r)"
        then have "nat i \<le> k \<and> k < length (deltas r)" by linarith
        with "1.prems"(2) show "uuid_toString (delta_getUuid (deltas r ! k)) \<noteq> u" by blast
      qed
    qed
    finally show ?thesis .
  next
    case False
    then show ?thesis by (subst importLoop.simps) simp
  qed
qed

lemma importLoop_first_match:
  "0 \<le> i \<Longrightarrow> nat i \<le> m \<Longrightarrow> m < length (deltas r) \<Longrightarrow>
   uuid_toString (delta_getUuid (deltas r ! m)) = u \<Longrightarrow>
   \<forall>k. nat i \<le> k \<and> k < m \<longrightarrow> uuid_toString (delta_getUuid (deltas r ! k)) \<noteq> u \<Longrightarrow>
   importLoop s c u r i =
     Inr (r\<lparr>deltasData :=
            array_set (fst (growDeltasData s (deltasData r) (int m))) (int m)
              (fst (createCopy (snd (growDeltasData s (deltasData r) (int m))) c))\<rparr>,
          snd (createCopy (snd (growDeltasData s (deltasData r) (int m))) c))"
proof (induction s c u r i rule: importLoop.induct)
  case (1 s c u r i)
  from "1.prems" have True: "i < int (length (deltas r))" by simp
  with "1.prems" have lt: "nat i < length (deltas r)" by simp
  have get: "ownedArray_get (deltas r) i = Some (deltas r ! nat i)"
    using lt "1.prems" by (simp add: ownedArray_get_def)
  show ?case
  proof (cases "nat i = m")
    case eq: True
    then have "int m = i" using "1.prems"(1) by simp
    then show ?thesis
      using True get "1.prems"(4) eq by (subst importLoop.simps) (simp add: Let_def)
  next
    case False
    with "1.prems"(2) have lt_m: "nat i < m" by simp
    have ne: "uuid_toString (delta_getUuid (deltas r ! nat i)) \<noteq> u"
      using "1.prems"(5) lt_m by blast
    have "importLoop s c u r i = importLoop s c u r (i + 1)"
      using True get ne by (subst importLoop.simps) simp
    also have "\<dots> = Inr (r\<lparr>deltasData :=
            array_set (fst (growDeltasData s (deltasData r) (int m))) (int m)
              (fst (createCopy (snd (growDeltasData s (deltasData r) (int m))) c))\<rparr>,
          snd (createCopy (snd (growDeltasData s (deltasData r) (int m))) c))"
    proof (rule "1.IH" [OF True get ne])
      show "0 \<le> i + 1" using "1.prems" by simp
      show "nat (i + 1) \<le> m" using lt_m "1.prems"(1) by simp
      show "m < length (deltas r)" by (rule "1.prems"(3))
      show "uuid_toString (delta_getUuid (deltas r ! m)) = u" by (rule "1.prems"(4))
      show "\<forall>k. nat (i + 1) \<le> k \<and> k < m \<longrightarrow> uuid_toString (delta_getUuid (deltas r ! k)) \<noteq> u"
      proof (intro allI impI)
        fix k
        assume "nat (i + 1) \<le> k \<and> k < m"
        then have "nat i \<le> k \<and> k < m" by linarith
        with "1.prems"(5) show "uuid_toString (delta_getUuid (deltas r ! k)) \<noteq> u" by blast
      qed
    qed
    finally show ?thesis .
  qed
qed

lemma importDataForDelta_no_match:
  assumes "\<forall>d \<in> set (deltas r). uuid_toString (delta_getUuid d) \<noteq> u"
  shows "importDataForDelta s payload u r = Inr (r, s)"
proof -
  from assms have "\<forall>k. nat 0 \<le> k \<and> k < length (deltas r) \<longrightarrow>
      uuid_toString (delta_getUuid (deltas r ! k)) \<noteq> u"
    by simp
  then show ?thesis
    unfolding importDataForDelta_def by (intro importLoop_no_match) simp_all
qed

lemma importDataForDelta_first_match:
  assumes "i < length (deltas r)" and "uuid_toString (delta_getUuid (deltas r ! i)) = u"
    and "\<forall>j < i. uuid_toString (delta_getUuid (deltas r ! j)) \<noteq> u"
    and h: "isHandleOf s payload"
  shows "importDataForDelta s payload u r =
     (case derefValueTree s payload of
        None \<Rightarrow>
          Inr (r\<lparr>deltasData :=
                 (deltasData r @
                  map Some [length s..<length s + (Suc i - length (deltasData r))])[i := None]\<rparr>,
               s @ replicate (Suc i - length (deltasData r)) (SharedObject ''dummy'' [] []))
      | Some ob \<Rightarrow>
          Inr (r\<lparr>deltasData :=
                 (deltasData r @
                  map Some [length s..<length s + (Suc i - length (deltasData r))])
                   [i := Some (length s + (Suc i - length (deltasData r)))]\<rparr>,
               s @ replicate (Suc i - length (deltasData r)) (SharedObject ''dummy'' [] []) @ [ob]))"
proof -
  let ?k = "Suc i - length (deltasData r)"
  let ?s1 = "s @ replicate ?k (SharedObject ''dummy'' [] [])"
  let ?grown = "deltasData r @ map Some [length s..<length s + ?k]"
  have n: "nat (int i + 1 - int (length (deltasData r))) = ?k"
    by simp
  have g: "growDeltasData s (deltasData r) (int i) = (?grown, ?s1)"
    unfolding growDeltasData_eq n ..
  have d: "derefValueTree ?s1 payload = derefValueTree s payload"
    using h by (auto simp: derefValueTree_def isHandleOf_def nth_append split: option.splits)
  have len: "i < length ?grown" by simp
  have set: "array_set ?grown (int i) v = ?grown[i := v]" for v
    using len by (simp add: array_set_def del: length_append length_map length_upt)
  have "importLoop s payload u r 0 =
     Inr (r\<lparr>deltasData := array_set ?grown (int i) (fst (createCopy ?s1 payload))\<rparr>,
          snd (createCopy ?s1 payload))"
    using importLoop_first_match [of 0 i r u s payload] assms(1-3) by (simp add: g)
  then show ?thesis
    unfolding importDataForDelta_def set
    by (cases "derefValueTree s payload")
       (simp_all add: createCopy_def d allocObject_def)
qed

lemma derefValueTree_extended:
  "isHandleOf s h \<Longrightarrow> derefValueTree (s @ extra) h = derefValueTree s h"
  by (auto simp: derefValueTree_def isHandleOf_def nth_append split: option.splits)

lemma deref_placeholders:
  "map (derefValueTree (s @ replicate k ob @ extra)) (map Some [length s..<length s + k]) =
   replicate k (Some ob)"
proof -
  have "map (\<lambda>a. derefValueTree (s @ replicate k ob @ extra) (Some a)) [length s..<length s + k] =
        map (\<lambda>a. Some ob) [length s..<length s + k]"
    by (rule map_cong) (auto simp: derefValueTree_def nth_append)
  then show ?thesis
    by (simp add: map_replicate_const comp_def)
qed

text \<open>Trees: a property read after a write, and the effect of the two delta loops.\<close>

lemma map_of_namedValueSet_set: "map_of (namedValueSet_set ps k v) = (map_of ps)(k \<mapsto> v)"
  by (induction ps k v rule: namedValueSet_set.induct) auto

lemma getProperty_setProperty:
  "isValid t \<Longrightarrow> getProperty (setProperty t k v) k' d = (if k' = k then v else getProperty t k' d)"
  by (auto simp: isValid_def getProperty_def setProperty_def map_of_namedValueSet_set)

lemma isValid_setProperty: "isValid (setProperty t k v) = isValid t"
  by (auto simp: isValid_def setProperty_def split: option.splits)

lemma hasType_setProperty: "hasType (setProperty t k v) x = hasType t x"
  by (auto simp: hasType_def setProperty_def split: option.splits)

lemma childTrees_setProperty: "childTrees (setProperty t k v) = childTrees t"
  by (auto simp: childTrees_def setProperty_def split: option.splits)

lemma appendDeltas_props:
  "isValid (appendDeltas ds t xs) = isValid t \<and>
   hasType (appendDeltas ds t xs) x = hasType t x \<and>
   getProperty (appendDeltas ds t xs) k d = getProperty t k d"
  by (induction xs arbitrary: t)
    (auto simp: isValid_def hasType_def getProperty_def appendChild_def split: option.splits)

lemma childTrees_appendDeltas:
  "isValid t \<Longrightarrow> \<forall>d \<in> set xs. isValid (ds d) \<Longrightarrow>
   childTrees (appendDeltas ds t xs) = childTrees t @ map ds xs"
  by (induction xs arbitrary: t)
    (auto simp: isValid_def childTrees_def appendChild_def split: option.splits)

lemma readDeltas_eq: "readDeltas dd es r = r\<lparr>deltas := deltas r @ map dd es\<rparr>"
  by (induction es arbitrary: r) simp_all

lemma deltasData_readDeltas: "deltasData (readDeltas dd es r) = deltasData r"
  by (simp add: readDeltas_eq)

lemma deltasData_deserialize: "deltasData (deserialize dd cl tree r) = deltasData r"
  by (simp add: deserialize_def Let_def reset_def deserializeVCSUuid_def deltasData_readDeltas)

lemma sample_flushLoop:
  "flushLoop sampleItem 0 [] =
     Inr [((Uuid ''a1'', Uuid ''d2''), newValueTree ''mute''),
          ((Uuid ''a1'', Uuid ''d1''), newValueTree ''path'')]"
  by (simp add: flushLoop_eq sampleItem_def getUuid_def upt_rec)

lemma twin_flushLoop:
  "flushLoop twinItem 0 [] =
     Inr [((Uuid ''a1'', Uuid ''d1''), newValueTree ''second''),
          ((Uuid ''a1'', Uuid ''d1''), newValueTree ''first'')]"
  by (simp add: flushLoop_eq twinItem_def getUuid_def upt_rec)

lemma sample_RevisionItem:
  "RevisionItem (Uuid ''fresh'') Changed (Some sampleTrackedItem) = Inr sampleItem"
  by (simp add: RevisionItem_def copyDeltas_eq sampleTrackedItem_def sampleItem_def
      ti_getVCSName_def ti_getUuid_def createLogicCopy_def delta_createCopy_def upt_rec)

lemma twin_RevisionItem:
  "RevisionItem (Uuid ''fresh'') Changed (Some twinTrackedItem) = Inr twinItem"
  by (simp add: RevisionItem_def copyDeltas_eq twinTrackedItem_def twinItem_def
      ti_getVCSName_def ti_getUuid_def createLogicCopy_def delta_createCopy_def upt_rec)

lemma sample_import:
  "importDataForDelta sampleStore (Some 0) ''d2'' sampleRefsItem =
     Inr (sampleRefsItem\<lparr>deltasData := [Some 1, Some 3]\<rparr>,
          [SharedObject ''data'' [(''value'', VInt 7)] [], SharedObject ''dummy'' [] [],
           SharedObject ''dummy'' [] [], SharedObject ''data'' [(''value'', VInt 7)] []])"
proof -
  have "importDataForDelta sampleStore (Some 0) ''d2'' sampleRefsItem =
     (case derefValueTree sampleStore (Some 0) of
        None \<Rightarrow>
          Inr (sampleRefsItem\<lparr>deltasData :=
                 (deltasData sampleRefsItem @
                  map Some [length sampleStore..<length sampleStore + (Suc 1 - length (deltasData sampleRefsItem))])[1 := None]\<rparr>,
               sampleStore @ replicate (Suc 1 - length (deltasData sampleRefsItem)) (SharedObject ''dummy'' [] []))
      | Some ob \<Rightarrow>
          Inr (sampleRefsItem\<lparr>deltasData :=
                 (deltasData sampleRefsItem @
                  map Some [length sampleStore..<length sampleStore + (Suc 1 - length (deltasData sampleRefsItem))])
                   [1 := Some (length sampleStore + (Suc 1 - length (deltasData sampleRefsItem)))]\<rparr>,
               sampleStore @ replicate (Suc 1 - length (deltasData sampleRefsItem)) (SharedObject ''dummy'' [] []) @ [ob]))"
    by (rule importDataForDelta_first_match)
       (simp_all add: sampleRefsItem_def sampleStore_def isHandleOf_def)
  then show ?thesis
    by (simp add: sampleRefsItem_def sampleStore_def derefValueTree_def upt_rec numeral_2_eq_2)
qed

lemma sample_serialize:
  "serialize sampleDeltaSerialize sampleItem = Inr (Some (SharedObject ''revisionItem''
         [(''vcsUuid'', VString ''a1''), (''revisionItemType'', VInt 2),
          (''revisionItemName'', VString ''Piano''),
          (''revisionItemDiffLogic'', VString ''pianoTrack'')]
         [SharedObject ''delta'' [(''deltaId'', VString ''d1''), (''deltaType'', VString ''trackPath'')] [],
          SharedObject ''delta'' [(''deltaId'', VString ''d2''), (''deltaType'', VString ''trackMute'')] []]))"
  by (simp add: serialize_def Let_def sampleItem_def sampleDeltaSerialize_def newValueTree_def
      serializeVCSUuid_def setProperty_def appendChild_def getUuid_def getType_def getVCSName_def
      getDiffLogic_def Changed_def Serialization_VCS_revisionItem_def Serialization_VCS_vcsUuid_def
      Serialization_VCS_revisionItemType_def Serialization_VCS_revisionItemName_def
      Serialization_VCS_revisionItemDiffLogic_def)

section \<open>The type tag read by deserialize (C1)\<close>

text \<open>
  C1, as amended. The claim reads: a serialized tree whose \<^verbatim>\<open>revisionItemType\<close> holds an
  integer outside the enumerated range (such as 99) deserializes to an item of type
  Undefined. The code has no range check: \<^verbatim>\<open>deserialize\<close> stores the integer it reads,
  cast to the enum, so whenever the revisionItem node (the tree itself or its first
  child of that name) holds the integer \<open>n\<close> under \<^verbatim>\<open>revisionItemType\<close>, the
  loaded item's \<^verbatim>\<open>getType()\<close> is \<open>n\<close>, in range or not. The load itself always
  completes: \<open>deserialize\<close> is a total function of the tree.
\<close>

theorem deserialize_keeps_stored_type_integer:
  assumes "root = (if hasType tree Serialization_VCS_revisionItem then tree
                   else getChildWithName tree Serialization_VCS_revisionItem)"
    and "root = Some ob"
    and "map_of (objProperties ob) Serialization_VCS_revisionItemType = Some (VInt n)"
  shows "getType (deserialize dd cl tree r0) = n"
  using assms(3) unfolding deserialize_def Let_def assms(1) [symmetric] assms(2)
  by (simp add: isValid_def getProperty_def getType_def readDeltas_eq)

text \<open>The theorem at a tree that holds \<open>2\<close>, the value of Changed.\<close>

theorem deserialize_keeps_stored_type_integer_witness:
  "getType (deserialize sampleDeltaDeserialize sampleCreateLogicFor
      (Some (SharedObject ''revisionItem''
         [(''vcsUuid'', VString ''a1''), (''revisionItemType'', VInt 2),
          (''revisionItemName'', VString ''Piano''),
          (''revisionItemDiffLogic'', VString ''pianoTrack'')] []))
      twinItem) = Changed"
  using deserialize_keeps_stored_type_integer [of
      "Some (SharedObject ''revisionItem''
         [(''vcsUuid'', VString ''a1''), (''revisionItemType'', VInt 2),
          (''revisionItemName'', VString ''Piano''),
          (''revisionItemDiffLogic'', VString ''pianoTrack'')] [])"
      "Some (SharedObject ''revisionItem''
         [(''vcsUuid'', VString ''a1''), (''revisionItemType'', VInt 2),
          (''revisionItemName'', VString ''Piano''),
          (''revisionItemDiffLogic'', VString ''pianoTrack'')] [])"
      "SharedObject ''revisionItem''
         [(''vcsUuid'', VString ''a1''), (''revisionItemType'', VInt 2),
          (''revisionItemName'', VString ''Piano''),
          (''revisionItemDiffLogic'', VString ''pianoTrack'')] []"
      2 sampleDeltaDeserialize sampleCreateLogicFor twinItem]
  by (simp add: hasType_def Serialization_VCS_revisionItem_def
      Serialization_VCS_revisionItemType_def Changed_def)

text \<open>
  The claim as stated fails at 99: the loaded item's type is 99, which is not
  Undefined.
\<close>

theorem deserialize_type_99_not_Undefined:
  "getType (deserialize sampleDeltaDeserialize sampleCreateLogicFor
      (Some (SharedObject ''revisionItem''
         [(''vcsUuid'', VString ''a1''), (''revisionItemType'', VInt 99),
          (''revisionItemName'', VString ''Piano''),
          (''revisionItemDiffLogic'', VString ''pianoTrack'')] []))
      sampleItem) = 99 \<and>
   getType (deserialize sampleDeltaDeserialize sampleCreateLogicFor
      (Some (SharedObject ''revisionItem''
         [(''vcsUuid'', VString ''a1''), (''revisionItemType'', VInt 99),
          (''revisionItemName'', VString ''Piano''),
          (''revisionItemDiffLogic'', VString ''pianoTrack'')] []))
      sampleItem) \<noteq> Undefined"
  by (simp add: deserialize_def Let_def hasType_def isValid_def getProperty_def getType_def
      readDeltas_eq childTrees_def Serialization_VCS_revisionItem_def
      Serialization_VCS_revisionItemType_def Undefined_def)

section \<open>reset and a load that finds no revisionItem node (C2)\<close>

text \<open>
  C2, as amended. After \<^verbatim>\<open>reset()\<close> the delta list is empty, the name is the empty
  string and the type is Undefined, while the pending cache, the bound DiffLogic and the
  uuid are what they were; and for a tree that neither is a revisionItem node nor has a
  child of that name, \<^verbatim>\<open>deserialize\<close> returns after its \<^verbatim>\<open>reset()\<close>, so it leaves
  the item exactly in the state \<^verbatim>\<open>reset()\<close> produces: of the state before the load,
  the deltas, the name and the type do not survive; the pending cache, the DiffLogic
  and the uuid do.
\<close>

theorem reset_and_failed_load_frame:
  assumes "\<not> hasType tree Serialization_VCS_revisionItem"
    and "\<not> isValid (getChildWithName tree Serialization_VCS_revisionItem)"
  shows "deltas (reset r) = [] \<and> getVCSName (reset r) = [] \<and> getType (reset r) = Undefined \<and>
         deltasData (reset r) = deltasData r \<and> getDiffLogic (reset r) = getDiffLogic r \<and>
         getUuid (reset r) = getUuid r \<and>
         deserialize dd cl tree r = reset r"
  using assms
  by (simp add: reset_def getVCSName_def getType_def getDiffLogic_def getUuid_def
      deserialize_def Let_def)

text \<open>The theorem at a tree of another type, loaded into the sample item.\<close>

theorem reset_and_failed_load_frame_witness:
  "deltas (reset sampleItem) = [] \<and> getVCSName (reset sampleItem) = [] \<and>
   getType (reset sampleItem) = Undefined \<and>
   deltasData (reset sampleItem) = [newValueTree ''path'', newValueTree ''mute''] \<and>
   deserialize sampleDeltaDeserialize sampleCreateLogicFor
     (Some (SharedObject ''revision'' [(''revisionItemName'', VString ''Bass'')] [])) sampleItem =
   reset sampleItem"
  using reset_and_failed_load_frame [of
      "Some (SharedObject ''revision'' [(''revisionItemName'', VString ''Bass'')] [])"
      sampleItem sampleDeltaDeserialize sampleCreateLogicFor]
  by (simp add: hasType_def isValid_def getChildWithName_def Serialization_VCS_revisionItem_def)
    (simp add: sampleItem_def)

text \<open>
  The claim as stated ends "so no stale state survives a failed load". It fails at the
  sample item: after the failed load the item has no delta left and still holds both
  pending payloads and its DiffLogic, and the next \<^verbatim>\<open>flushData()\<close> dereferences the
  null \<^verbatim>\<open>deltas[0]\<close>.
\<close>

theorem failed_load_keeps_stale_state:
  "deserialize sampleDeltaDeserialize sampleCreateLogicFor
     (Some (SharedObject ''revision'' [(''revisionItemName'', VString ''Bass'')] [])) sampleItem =
     \<lparr>vcsItemType = Undefined, description = [], vcsUuid = Uuid ''a1'',
      logic = Some (DiffLogic ''pianoTrack''), deltas = [],
      deltasData = [newValueTree ''path'', newValueTree ''mute'']\<rparr> \<and>
   flushData
     \<lparr>vcsItemType = Undefined, description = [], vcsUuid = Uuid ''a1'',
      logic = Some (DiffLogic ''pianoTrack''), deltas = [],
      deltasData = [newValueTree ''path'', newValueTree ''mute'']\<rparr> [] =
     Inl NullPointerDereference"
proof -
  have "flushLoop
     \<lparr>vcsItemType = Undefined, description = [], vcsUuid = Uuid ''a1'',
      logic = Some (DiffLogic ''pianoTrack''), deltas = [],
      deltasData = [newValueTree ''path'', newValueTree ''mute'']\<rparr> 0 [] =
     Inl NullPointerDereference"
    by (subst flushLoop.simps) (simp add: ownedArray_get_def)
  then show ?thesis
    by (simp add: flushData_def)
      (simp add: deserialize_def Let_def hasType_def isValid_def getChildWithName_def
        Serialization_VCS_revisionItem_def reset_def sampleItem_def)
qed

section \<open>The round trip through serialize and deserialize (C3)\<close>

text \<open>
  C3, as amended. For a RevisionItem \<open>r\<close> that has a DiffLogic bound, a Delta codec
  that writes each delta of \<open>r\<close> as a valid node and reads its id back from it, and
  a factory that answers the tag of \<open>r\<close>'s logic with a logic of that tag:
  \<^verbatim>\<open>serialize\<close> returns a tree, and \<^verbatim>\<open>deserialize\<close> of that tree (into any item
  \<open>r0\<close>) reproduces the type, the name, the diff-logic tag and the sequence of delta
  ids of \<open>r\<close>, in the same order.
\<close>

theorem serialize_deserialize_roundtrip:
  assumes lg: "getDiffLogic r = Some l"
    and codec: "\<forall>d \<in> set (deltas r). isValid (ds d) \<and> delta_getUuid (dd (ds d)) = delta_getUuid d"
    and factory: "map_option diffLogic_getType (cl (diffLogic_getType l)) = Some (diffLogic_getType l)"
  shows "\<exists>tree. serialize ds r = Inr tree \<and>
           getType (deserialize dd cl tree r0) = getType r \<and>
           getVCSName (deserialize dd cl tree r0) = getVCSName r \<and>
           map_option diffLogic_getType (getDiffLogic (deserialize dd cl tree r0)) =
             map_option diffLogic_getType (getDiffLogic r) \<and>
           map delta_getUuid (deltas (deserialize dd cl tree r0)) = map delta_getUuid (deltas r)"
proof -
  define base where "base =
    setProperty (setProperty (setProperty (serializeVCSUuid r (newValueTree Serialization_VCS_revisionItem))
      Serialization_VCS_revisionItemType (VInt (getType r)))
      Serialization_VCS_revisionItemName (VString (getVCSName r)))
      Serialization_VCS_revisionItemDiffLogic (VString (diffLogic_getType l))"
  define tree where "tree = appendDeltas ds base (deltas r)"
  have ser: "serialize ds r = Inr tree"
    using lg by (simp add: serialize_def Let_def tree_def base_def)
  have v0: "isValid (serializeVCSUuid r (newValueTree Serialization_VCS_revisionItem))"
    by (simp add: serializeVCSUuid_def isValid_setProperty) (simp add: isValid_def newValueTree_def)
  have vb: "isValid base"
    by (simp add: base_def isValid_setProperty v0)
  have tb: "hasType base Serialization_VCS_revisionItem"
    by (simp add: base_def hasType_setProperty serializeVCSUuid_def) (simp add: hasType_def newValueTree_def)
  have cb: "childTrees base = []"
    by (simp add: base_def childTrees_setProperty serializeVCSUuid_def) (simp add: childTrees_def newValueTree_def)
  have keys: "Serialization_VCS_revisionItemType \<noteq> Serialization_VCS_revisionItemName"
    "Serialization_VCS_revisionItemType \<noteq> Serialization_VCS_revisionItemDiffLogic"
    "Serialization_VCS_revisionItemName \<noteq> Serialization_VCS_revisionItemDiffLogic"
    by (simp_all add: Serialization_VCS_revisionItemType_def Serialization_VCS_revisionItemName_def
        Serialization_VCS_revisionItemDiffLogic_def)
  have pt: "getProperty tree Serialization_VCS_revisionItemType d = VInt (getType r)" for d
    using keys by (simp add: tree_def appendDeltas_props base_def getProperty_setProperty isValid_setProperty v0)
  have pn: "getProperty tree Serialization_VCS_revisionItemName d = VString (getVCSName r)" for d
    using keys by (simp add: tree_def appendDeltas_props base_def getProperty_setProperty isValid_setProperty v0)
  have pl: "getProperty tree Serialization_VCS_revisionItemDiffLogic d = VString (diffLogic_getType l)" for d
    using keys by (simp add: tree_def appendDeltas_props base_def getProperty_setProperty isValid_setProperty v0)
  have vt: "isValid tree" and tt: "hasType tree Serialization_VCS_revisionItem"
    by (simp_all add: tree_def appendDeltas_props vb tb)
  have ct: "childTrees tree = map ds (deltas r)"
    using childTrees_appendDeltas [OF vb, of "deltas r" ds] codec by (simp add: tree_def cb)
  have ids: "map delta_getUuid (map dd (map ds (deltas r))) = map delta_getUuid (deltas r)"
    using codec by simp
  have des: "deserialize dd cl tree r0 =
      (deserializeVCSUuid tree (reset r0))\<lparr>description := getVCSName r, vcsItemType := getType r,
         logic := cl (diffLogic_getType l), deltas := map dd (map ds (deltas r))\<rparr>"
    by (simp add: deserialize_def Let_def vt tt pt pn pl ct readDeltas_eq reset_def deserializeVCSUuid_def)
  show ?thesis
    using ser factory ids lg by (simp add: des getType_def getVCSName_def getDiffLogic_def)
qed

text \<open>The theorem at the sample item, loaded back into another item.\<close>

theorem serialize_deserialize_roundtrip_witness:
  "getType (deserialize sampleDeltaDeserialize sampleCreateLogicFor
      (Some (SharedObject ''revisionItem''
         [(''vcsUuid'', VString ''a1''), (''revisionItemType'', VInt 2),
          (''revisionItemName'', VString ''Piano''),
          (''revisionItemDiffLogic'', VString ''pianoTrack'')]
         [SharedObject ''delta'' [(''deltaId'', VString ''d1''), (''deltaType'', VString ''trackPath'')] [],
          SharedObject ''delta'' [(''deltaId'', VString ''d2''), (''deltaType'', VString ''trackMute'')] []]))
      twinItem) = Changed \<and>
   map delta_getUuid (deltas (deserialize sampleDeltaDeserialize sampleCreateLogicFor
      (Some (SharedObject ''revisionItem''
         [(''vcsUuid'', VString ''a1''), (''revisionItemType'', VInt 2),
          (''revisionItemName'', VString ''Piano''),
          (''revisionItemDiffLogic'', VString ''pianoTrack'')]
         [SharedObject ''delta'' [(''deltaId'', VString ''d1''), (''deltaType'', VString ''trackPath'')] [],
          SharedObject ''delta'' [(''deltaId'', VString ''d2''), (''deltaType'', VString ''trackMute'')] []]))
      twinItem)) = [Uuid ''d1'', Uuid ''d2'']"
proof -
  have lg: "getDiffLogic sampleItem = Some (DiffLogic ''pianoTrack'')"
    by (simp add: getDiffLogic_def sampleItem_def)
  have codec: "\<forall>d \<in> set (deltas sampleItem). isValid (sampleDeltaSerialize d) \<and>
      delta_getUuid (sampleDeltaDeserialize (sampleDeltaSerialize d)) = delta_getUuid d"
    by (simp add: sampleItem_def sampleDeltaSerialize_def sampleDeltaDeserialize_def isValid_def
        getProperty_def)
  have factory: "map_option diffLogic_getType
      (sampleCreateLogicFor (diffLogic_getType (DiffLogic ''pianoTrack''))) =
      Some (diffLogic_getType (DiffLogic ''pianoTrack''))"
    by (simp add: sampleCreateLogicFor_def)
  from serialize_deserialize_roundtrip [of sampleItem "DiffLogic ''pianoTrack''"
      sampleDeltaSerialize sampleDeltaDeserialize sampleCreateLogicFor twinItem, OF lg codec factory]
  show ?thesis
    by (simp add: sample_serialize) (simp add: sampleItem_def getType_def)
qed

text \<open>
  The claim as stated, for every RevisionItem, fails at an item with no DiffLogic
  bound, which is what the constructor yields for a null TrackedItem: \<^verbatim>\<open>serialize\<close>
  dereferences the null logic.
\<close>

theorem serialize_unbound_logic_fails:
  "RevisionItem (Uuid ''a1'') Added None =
     Inr \<lparr>vcsItemType = Added, description = [], vcsUuid = Uuid ''a1'', logic = None,
          deltas = [], deltasData = []\<rparr> \<and>
   serialize sampleDeltaSerialize
     \<lparr>vcsItemType = Added, description = [], vcsUuid = Uuid ''a1'', logic = None,
      deltas = [], deltasData = []\<rparr> = Inl NullPointerDereference"
  by (simp add: RevisionItem_def serialize_def Let_def getDiffLogic_def)

section \<open>Copy construction (C4)\<close>

text \<open>
  C4. A RevisionItem constructed from a tracked item \<open>t\<close> with \<open>N\<close> deltas has
  \<open>N\<close> deltas, the name and the uuid of \<open>t\<close>, and, before any flush, answers
  \<^verbatim>\<open>serializeDeltaData (i)\<close> for every index \<open>0 \<le> i < N\<close> with the payload \<open>t\<close>
  gave for delta \<open>i\<close> when the item was constructed.
\<close>

theorem copy_construction_captures_deltas:
  assumes "0 \<le> i" and "i < ti_getNumDeltas t"
  shows "\<exists>r. RevisionItem u0 ty (Some t) = Inr r \<and>
              getNumDeltas r = ti_getNumDeltas t \<and>
              serializeDeltaData r p i = Inr (ti_serializeDeltaData t i) \<and>
              getVCSName r = ti_getVCSName t \<and> getUuid r = ti_getUuid t"
proof -
  from assms have lt: "nat i < length (ti_deltas t)"
    by (simp add: ti_getNumDeltas_def)
  then have "[0..<length (ti_deltas t)] ! nat i = nat i"
    by simp
  with assms lt show ?thesis
    by (simp add: RevisionItem_def copyDeltas_eq getNumDeltas_def ti_getNumDeltas_def
        serializeDeltaData_def array_get_def getVCSName_def getUuid_def ti_serializeDeltaData_def)
qed

text \<open>The theorem at the sample tracked item and index 1.\<close>

theorem copy_construction_captures_deltas_witness:
  "RevisionItem (Uuid ''fresh'') Changed (Some sampleTrackedItem) = Inr sampleItem \<and>
   getNumDeltas sampleItem = 2 \<and>
   serializeDeltaData sampleItem [] 1 = Inr (newValueTree ''mute'') \<and>
   getVCSName sampleItem = ''Piano'' \<and> getUuid sampleItem = Uuid ''a1''"
proof -
  have h: "(0::int) \<le> 1" "1 < ti_getNumDeltas sampleTrackedItem"
    by (simp_all add: ti_getNumDeltas_def sampleTrackedItem_def)
  from copy_construction_captures_deltas [OF h, of "Uuid ''fresh''" Changed "[]"]
  show ?thesis
    by (simp add: sample_RevisionItem)
      (simp add: ti_getNumDeltas_def ti_serializeDeltaData_def ti_getVCSName_def ti_getUuid_def
        sampleTrackedItem_def)
qed

section \<open>The two tiers of serializeDeltaData (C5)\<close>

text \<open>
  C5. For a valid delta index \<open>0 \<le> i < getNumDeltas()\<close>, \<^verbatim>\<open>serializeDeltaData (i)\<close>
  returns the pending payload \<open>deltasData[i]\<close> when \<open>i\<close> is within the pending cache,
  and otherwise what \<^verbatim>\<open>createDeltaDataFor\<close> of the Pack answers for the item's uuid and
  the uuid of \<open>deltas[i]\<close>.
\<close>

theorem serializeDeltaData_two_tier:
  assumes "0 \<le> i" and "i < getNumDeltas r"
  shows "serializeDeltaData r p i =
           Inr (if i < int (length (deltasData r)) then deltasData r ! nat i
                else createDeltaDataFor p (getUuid r) (delta_getUuid (deltas r ! nat i)))"
  using assms
  by (simp add: serializeDeltaData_def array_get_def ownedArray_get_def getNumDeltas_def)

text \<open>The theorem at index 0 of the sample item, with its pending cache and without.\<close>

theorem serializeDeltaData_two_tier_witness:
  "serializeDeltaData sampleItem [((Uuid ''a1'', Uuid ''d1''), newValueTree ''old'')] 0 =
     Inr (newValueTree ''path'') \<and>
   serializeDeltaData (sampleItem\<lparr>deltasData := []\<rparr>)
     [((Uuid ''a1'', Uuid ''d1''), newValueTree ''old'')] 0 = Inr (newValueTree ''old'')"
proof -
  have h: "(0::int) \<le> 0" "0 < getNumDeltas sampleItem"
    "0 < getNumDeltas (sampleItem\<lparr>deltasData := []\<rparr>)"
    by (simp_all add: getNumDeltas_def sampleItem_def)
  from serializeDeltaData_two_tier [OF h(1) h(2), of "[((Uuid ''a1'', Uuid ''d1''), newValueTree ''old'')]"]
    serializeDeltaData_two_tier [OF h(1) h(3), of "[((Uuid ''a1'', Uuid ''d1''), newValueTree ''old'')]"]
  show ?thesis
    by (simp add: sampleItem_def createDeltaDataFor_def getUuid_def)
qed

section \<open>Reading back after a flush (C6)\<close>

text \<open>
  C6, as amended. When \<^verbatim>\<open>flushData()\<close> of \<open>r\<close> returns, the pending cache is empty,
  and for every index \<open>i\<close> of the cache as it was at flush time such that no later
  index of that cache holds a delta with the uuid of \<open>deltas[i]\<close> (every index of
  the cache, when the delta uuids are pairwise distinct), \<^verbatim>\<open>serializeDeltaData (i)\<close>
  returns the payload that was pending for delta \<open>i\<close>, which is what the Pack holds
  under the item's uuid and the uuid of \<open>deltas[i]\<close>.
\<close>

theorem flushData_then_serializeDeltaData:
  assumes fl: "flushData r p = Inr (r', p')"
    and i0: "0 \<le> i" and ib: "i < int (length (deltasData r))"
    and later: "\<forall>j. nat i < j \<and> j < length (deltasData r) \<longrightarrow>
                  delta_getUuid (deltas r ! j) \<noteq> delta_getUuid (deltas r ! nat i)"
  shows "deltasData r' = [] \<and>
         serializeDeltaData r' p' i = Inr (deltasData r ! nat i) \<and>
         createDeltaDataFor p' (getUuid r) (delta_getUuid (deltas r ! nat i)) = deltasData r ! nat i"
proof -
  from fl obtain q where q: "flushLoop r 0 p = Inr q" and r': "r' = r\<lparr>deltasData := []\<rparr>" and p': "p' = q"
    by (auto simp: flushData_def split: sum.splits)
  have le: "length (deltasData r) \<le> length (deltas r)"
    using flushLoop_bound [OF q] by simp
  have p'_eq: "p' = rev (map (\<lambda>k. ((getUuid r, delta_getUuid (deltas r ! k)), deltasData r ! k))
                [0..<length (deltasData r)]) @ p"
    using flushLoop_eq [of 0 r p, OF _ le] q p' by simp
  have ni: "nat i < length (deltasData r)" using i0 ib by simp
  have "\<forall>j. nat i < j \<and> j < length (deltasData r) \<longrightarrow>
          (getUuid r, delta_getUuid (deltas r ! j)) \<noteq> (getUuid r, delta_getUuid (deltas r ! nat i))"
    using later by simp
  from map_of_writes [where key = "\<lambda>k. (getUuid r, delta_getUuid (deltas r ! k))"
      and val = "\<lambda>k. deltasData r ! k", OF ni this]
  have look: "createDeltaDataFor p' (getUuid r) (delta_getUuid (deltas r ! nat i)) = deltasData r ! nat i"
    by (simp add: createDeltaDataFor_def p'_eq)
  have "ownedArray_get (deltas r') i = Some (deltas r ! nat i)"
    using i0 ni le by (simp add: ownedArray_get_def r')
  then have "serializeDeltaData r' p' i = Inr (deltasData r ! nat i)"
    using look i0 by (simp add: serializeDeltaData_def r' getUuid_def)
  with look show ?thesis by (simp add: r')
qed

text \<open>The theorem at the sample item, an empty Pack and index 0.\<close>

theorem flushData_then_serializeDeltaData_witness:
  "flushData sampleItem [] =
     Inr (sampleItem\<lparr>deltasData := []\<rparr>,
          [((Uuid ''a1'', Uuid ''d2''), newValueTree ''mute''),
           ((Uuid ''a1'', Uuid ''d1''), newValueTree ''path'')]) \<and>
   serializeDeltaData (sampleItem\<lparr>deltasData := []\<rparr>)
     [((Uuid ''a1'', Uuid ''d2''), newValueTree ''mute''),
      ((Uuid ''a1'', Uuid ''d1''), newValueTree ''path'')] 0 = Inr (newValueTree ''path'')"
proof -
  have fl: "flushData sampleItem [] =
     Inr (sampleItem\<lparr>deltasData := []\<rparr>,
          [((Uuid ''a1'', Uuid ''d2''), newValueTree ''mute''),
           ((Uuid ''a1'', Uuid ''d1''), newValueTree ''path'')])"
    by (simp add: flushData_def sample_flushLoop)
  have i0: "(0::int) \<le> 0" by simp
  have ib: "0 < int (length (deltasData sampleItem))"
    by (simp add: sampleItem_def)
  have later: "\<forall>j. nat 0 < j \<and> j < length (deltasData sampleItem) \<longrightarrow>
      delta_getUuid (deltas sampleItem ! j) \<noteq> delta_getUuid (deltas sampleItem ! nat 0)"
    by (auto simp: sampleItem_def less_Suc_eq)
  from flushData_then_serializeDeltaData [OF fl i0 ib later] fl
  show ?thesis by (simp add: sampleItem_def)
qed

text \<open>
  The claim as stated, for every RevisionItem, fails at the snapshot of a tracked item
  that exposes one delta id at two indices: both payloads are written under one key,
  the last write wins, and index 0 reads back the payload of index 1.
\<close>

theorem flushData_duplicate_delta_ids:
  "RevisionItem (Uuid ''fresh'') Changed (Some twinTrackedItem) = Inr twinItem \<and>
   flushData twinItem [] =
     Inr (twinItem\<lparr>deltasData := []\<rparr>,
          [((Uuid ''a1'', Uuid ''d1''), newValueTree ''second''),
           ((Uuid ''a1'', Uuid ''d1''), newValueTree ''first'')]) \<and>
   serializeDeltaData (twinItem\<lparr>deltasData := []\<rparr>)
     [((Uuid ''a1'', Uuid ''d1''), newValueTree ''second''),
      ((Uuid ''a1'', Uuid ''d1''), newValueTree ''first'')] 0 = Inr (newValueTree ''second'') \<and>
   array_get (deltasData twinItem) 0 = newValueTree ''first'' \<and>
   newValueTree ''second'' \<noteq> newValueTree ''first''"
  by (simp add: flushData_def twin_flushLoop twin_RevisionItem)
    (simp add: twinItem_def serializeDeltaData_def ownedArray_get_def createDeltaDataFor_def
      getUuid_def array_get_def newValueTree_def)

section \<open>Flushing twice (C7)\<close>

text \<open>
  C7. After a \<^verbatim>\<open>flushData()\<close> that returned, the pending cache is empty and a second
  \<^verbatim>\<open>flushData()\<close> changes neither the item nor the Pack: the sequence of writes the
  Pack has received is the same before and after, so the second call writes nothing.
\<close>

theorem flushData_twice_noop:
  assumes "flushData r p = Inr (r1, p1)"
  shows "deltasData r1 = [] \<and> flushData r1 p1 = Inr (r1, p1)"
proof -
  from assms have r1: "r1 = r\<lparr>deltasData := []\<rparr>"
    by (auto simp: flushData_def split: sum.splits)
  have "flushLoop r1 0 p1 = Inr p1"
    by (subst flushLoop.simps) (simp add: r1)
  then show ?thesis by (simp add: flushData_def r1)
qed

text \<open>The theorem at the sample item and an empty Pack.\<close>

theorem flushData_twice_noop_witness:
  "flushData sampleItem [] =
     Inr (sampleItem\<lparr>deltasData := []\<rparr>,
          [((Uuid ''a1'', Uuid ''d2''), newValueTree ''mute''),
           ((Uuid ''a1'', Uuid ''d1''), newValueTree ''path'')]) \<and>
   flushData (sampleItem\<lparr>deltasData := []\<rparr>)
     [((Uuid ''a1'', Uuid ''d2''), newValueTree ''mute''),
      ((Uuid ''a1'', Uuid ''d1''), newValueTree ''path'')] =
     Inr (sampleItem\<lparr>deltasData := []\<rparr>,
          [((Uuid ''a1'', Uuid ''d2''), newValueTree ''mute''),
           ((Uuid ''a1'', Uuid ''d1''), newValueTree ''path'')])"
proof -
  have fl: "flushData sampleItem [] =
     Inr (sampleItem\<lparr>deltasData := []\<rparr>,
          [((Uuid ''a1'', Uuid ''d2''), newValueTree ''mute''),
           ((Uuid ''a1'', Uuid ''d1''), newValueTree ''path'')])"
    by (simp add: flushData_def sample_flushLoop)
  from flushData_twice_noop [OF fl] fl show ?thesis by simp
qed

section \<open>importDataForDelta (C8)\<close>

text \<open>
  C8. When the given uuid text matches none of the item's deltas,
  \<^verbatim>\<open>importDataForDelta\<close> returns and leaves the item, its delta list, its pending
  cache and the store of objects as they were. When it matches some delta and the
  payload is a handle of the store, there is an index \<open>i\<close> of a matching delta (the
  first one) such that: only the pending cache of the item changes; the objects that
  existed are untouched; the cache is the old one, extended up to index \<open>i\<close> if it
  was shorter by handles to new objects (which read as \<^verbatim>\<open>dummy\<close> placeholders), with
  slot \<open>i\<close> overwritten; and slot \<open>i\<close> holds a deep copy of the payload: a tree
  with the payload's content, in a new object that is not the caller's, so that
  whatever the caller's object is changed to afterwards, slot \<open>i\<close> still reads the
  content the payload had at the call. Read by content, the cache is the old cache,
  the placeholders, and the payload's content in slot \<open>i\<close>.
\<close>

theorem importDataForDelta_effect:
  "((\<forall>d \<in> set (deltas r). uuid_toString (delta_getUuid d) \<noteq> u) \<longrightarrow>
      importDataForDelta s payload u r = Inr (r, s)) \<and>
   ((\<exists>d \<in> set (deltas r). uuid_toString (delta_getUuid d) = u) \<and> isHandleOf s payload \<longrightarrow>
      (\<exists>i < length (deltas r).
         uuid_toString (delta_getUuid (deltas r ! i)) = u \<and>
         (\<forall>j < i. uuid_toString (delta_getUuid (deltas r ! j)) \<noteq> u) \<and>
         (\<exists>r' s'.
            importDataForDelta s payload u r = Inr (r', s') \<and>
            r' = r\<lparr>deltasData := deltasData r'\<rparr> \<and>
            take (length s) s' = s \<and>
            deltasData r' =
              (deltasData r @ map Some [length s..<length s + (Suc i - length (deltasData r))])
                [i := deltasData r' ! i] \<and>
            derefValueTree s' (deltasData r' ! i) = derefValueTree s payload \<and>
            (\<forall>a. payload = Some a \<longrightarrow>
               (\<exists>c. deltasData r' ! i = Some c \<and> length s \<le> c \<and> c \<noteq> a \<and>
                    (\<forall>x. derefValueTree (s'[a := x]) (Some c) = Some (s ! a)))) \<and>
            ((\<forall>h \<in> set (deltasData r). isHandleOf s h) \<longrightarrow>
               deltasData (payloadContents s' r') =
                 (deltasData (payloadContents s r) @
                  replicate (Suc i - length (deltasData r)) (newValueTree ''dummy''))
                   [i := derefValueTree s payload]))))"
proof (intro conjI impI)
  assume "\<forall>d \<in> set (deltas r). uuid_toString (delta_getUuid d) \<noteq> u"
  then show "importDataForDelta s payload u r = Inr (r, s)"
    by (rule importDataForDelta_no_match)
next
  let ?P = "\<lambda>k. k < length (deltas r) \<and> uuid_toString (delta_getUuid (deltas r ! k)) = u"
  assume a: "(\<exists>d \<in> set (deltas r). uuid_toString (delta_getUuid d) = u) \<and> isHandleOf s payload"
  then have h: "isHandleOf s payload" by simp
  from a obtain k where k: "?P k"
    by (auto simp: in_set_conv_nth)
  define i where "i = (LEAST k. ?P k)"
  have Pi: "?P i"
    unfolding i_def using k by (rule LeastI)
  have first: "\<forall>j < i. uuid_toString (delta_getUuid (deltas r ! j)) \<noteq> u"
  proof (intro allI impI)
    fix j assume ji: "j < i"
    then have "\<not> ?P j" unfolding i_def by (rule not_less_Least)
    moreover from ji Pi have "j < length (deltas r)" by simp
    ultimately show "uuid_toString (delta_getUuid (deltas r ! j)) \<noteq> u" by simp
  qed
  define n where "n = Suc i - length (deltasData r)"
  define grown where "grown = deltasData r @ map Some [length s..<length s + n]"
  define s1 where "s1 = s @ replicate n (SharedObject ''dummy'' [] [])"
  have len: "i < length grown" by (simp add: grown_def n_def)
  define v where "v = (case derefValueTree s payload of None \<Rightarrow> None | Some ob \<Rightarrow> Some (length s + n))"
  define s' where "s' = (case derefValueTree s payload of None \<Rightarrow> s1 | Some ob \<Rightarrow> s1 @ [ob])"
  define r' where "r' = r\<lparr>deltasData := grown[i := v]\<rparr>"
  have res: "importDataForDelta s payload u r = Inr (r', s')"
    using importDataForDelta_first_match [of i r u s payload] Pi first h
    by (simp add: r'_def s'_def v_def grown_def s1_def n_def split: option.splits)
  have dd: "deltasData r' = grown[i := v]" by (simp add: r'_def)
  have slot: "deltasData r' ! i = v" using len by (simp add: dd)
  have s'_app: "\<exists>extra. s' = s @ replicate n (SharedObject ''dummy'' [] []) @ extra"
    by (simp add: s'_def s1_def split: option.splits)
  have tk: "take (length s) s' = s"
    using s'_app by auto
  have content: "derefValueTree s' v = derefValueTree s payload"
  proof (cases "derefValueTree s payload")
    case None
    then show ?thesis by (simp add: v_def derefValueTree_def)
  next
    case (Some ob)
    then show ?thesis
      by (simp add: v_def s'_def s1_def derefValueTree_def nth_append)
  qed
  have fresh: "\<forall>a. payload = Some a \<longrightarrow>
      (\<exists>c. deltasData r' ! i = Some c \<and> length s \<le> c \<and> c \<noteq> a \<and>
           (\<forall>x. derefValueTree (s'[a := x]) (Some c) = Some (s ! a)))"
  proof (intro allI impI)
    fix a assume pa: "payload = Some a"
    with h have lt: "a < length s" by (simp add: isHandleOf_def)
    then have d: "derefValueTree s payload = Some (s ! a)"
      by (simp add: derefValueTree_def pa)
    have v_eq: "v = Some (length s + n)" by (simp add: v_def d)
    have s'_eq: "s' = s1 @ [s ! a]" by (simp add: s'_def d)
    have "\<forall>x. derefValueTree (s'[a := x]) (Some (length s + n)) = Some (s ! a)"
      using lt by (simp add: derefValueTree_def s'_eq s1_def nth_append list_update_append)
    with lt show "\<exists>c. deltasData r' ! i = Some c \<and> length s \<le> c \<and> c \<noteq> a \<and>
           (\<forall>x. derefValueTree (s'[a := x]) (Some c) = Some (s ! a))"
      by (simp add: slot v_eq)
  qed
  have view: "(\<forall>h \<in> set (deltasData r). isHandleOf s h) \<longrightarrow>
      deltasData (payloadContents s' r') =
        (deltasData (payloadContents s r) @ replicate n (newValueTree ''dummy''))
          [i := derefValueTree s payload]"
  proof
    assume valid: "\<forall>h \<in> set (deltasData r). isHandleOf s h"
    from s'_app obtain extra where ex: "s' = s @ replicate n (SharedObject ''dummy'' [] []) @ extra"
      by blast
    have old: "map (derefValueTree s') (deltasData r) = map (derefValueTree s) (deltasData r)"
      using valid by (intro map_cong) (simp_all add: ex derefValueTree_extended)
    have new: "map (derefValueTree s') (map Some [length s..<length s + n]) =
        replicate n (newValueTree ''dummy'')"
      unfolding ex newValueTree_def by (rule deref_placeholders)
    have "map (derefValueTree s') (grown[i := v]) =
        (map (derefValueTree s') grown)[i := derefValueTree s' v]"
      by (rule map_update)
    also have "\<dots> = (map (derefValueTree s) (deltasData r) @ replicate n (newValueTree ''dummy''))
          [i := derefValueTree s payload]"
      by (simp only: grown_def map_append old new content)
    finally show "deltasData (payloadContents s' r') =
        (deltasData (payloadContents s r) @ replicate n (newValueTree ''dummy''))
          [i := derefValueTree s payload]"
      by (simp add: payloadContents_def dd)
  qed
  have shape: "deltasData r' =
      (deltasData r @ map Some [length s..<length s + n])[i := deltasData r' ! i]"
    unfolding slot using dd by (simp only: grown_def)
  have rec: "r' = r\<lparr>deltasData := deltasData r'\<rparr>"
    by (simp add: r'_def)
  have content': "derefValueTree s' (deltasData r' ! i) = derefValueTree s payload"
    by (simp only: slot content)
  have "importDataForDelta s payload u r = Inr (r', s') \<and>
        r' = r\<lparr>deltasData := deltasData r'\<rparr> \<and>
        take (length s) s' = s \<and>
        deltasData r' =
          (deltasData r @ map Some [length s..<length s + (Suc i - length (deltasData r))])
            [i := deltasData r' ! i] \<and>
        derefValueTree s' (deltasData r' ! i) = derefValueTree s payload \<and>
        (\<forall>a. payload = Some a \<longrightarrow>
           (\<exists>c. deltasData r' ! i = Some c \<and> length s \<le> c \<and> c \<noteq> a \<and>
                (\<forall>x. derefValueTree (s'[a := x]) (Some c) = Some (s ! a)))) \<and>
        ((\<forall>h \<in> set (deltasData r). isHandleOf s h) \<longrightarrow>
           deltasData (payloadContents s' r') =
             (deltasData (payloadContents s r) @
              replicate (Suc i - length (deltasData r)) (newValueTree ''dummy''))
               [i := derefValueTree s payload])"
    using res rec tk shape content' fresh view unfolding n_def by (intro conjI)
  with Pi first
  show "\<exists>i < length (deltas r).
         uuid_toString (delta_getUuid (deltas r ! i)) = u \<and>
         (\<forall>j < i. uuid_toString (delta_getUuid (deltas r ! j)) \<noteq> u) \<and>
         (\<exists>r' s'.
            importDataForDelta s payload u r = Inr (r', s') \<and>
            r' = r\<lparr>deltasData := deltasData r'\<rparr> \<and>
            take (length s) s' = s \<and>
            deltasData r' =
              (deltasData r @ map Some [length s..<length s + (Suc i - length (deltasData r))])
                [i := deltasData r' ! i] \<and>
            derefValueTree s' (deltasData r' ! i) = derefValueTree s payload \<and>
            (\<forall>a. payload = Some a \<longrightarrow>
               (\<exists>c. deltasData r' ! i = Some c \<and> length s \<le> c \<and> c \<noteq> a \<and>
                    (\<forall>x. derefValueTree (s'[a := x]) (Some c) = Some (s ! a)))) \<and>
            ((\<forall>h \<in> set (deltasData r). isHandleOf s h) \<longrightarrow>
               deltasData (payloadContents s' r') =
                 (deltasData (payloadContents s r) @
                  replicate (Suc i - length (deltasData r)) (newValueTree ''dummy''))
                   [i := derefValueTree s payload]))"
    by blast
qed

text \<open>
  The theorem at the sample item on handles: an unknown uuid; the uuid of the second
  delta, where two placeholders are made (addresses 1 and 2) and the copy is the
  object at address 3; and a later change of the caller's object at address 0, which
  the copy does not see.
\<close>

theorem importDataForDelta_effect_witness:
  "importDataForDelta sampleStore (Some 0) ''zz'' sampleRefsItem = Inr (sampleRefsItem, sampleStore) \<and>
   importDataForDelta sampleStore (Some 0) ''d2'' sampleRefsItem =
     Inr (sampleRefsItem\<lparr>deltasData := [Some 1, Some 3]\<rparr>,
          [SharedObject ''data'' [(''value'', VInt 7)] [], SharedObject ''dummy'' [] [],
           SharedObject ''dummy'' [] [], SharedObject ''data'' [(''value'', VInt 7)] []]) \<and>
   derefValueTree
     ([SharedObject ''data'' [(''value'', VInt 7)] [], SharedObject ''dummy'' [] [],
       SharedObject ''dummy'' [] [], SharedObject ''data'' [(''value'', VInt 7)] []]
        [0 := SharedObject ''changed'' [] []])
     (Some 3) = Some (SharedObject ''data'' [(''value'', VInt 7)] [])"
proof -
  have none: "\<forall>d \<in> set (deltas sampleRefsItem). uuid_toString (delta_getUuid d) \<noteq> ''zz''"
    by (simp add: sampleRefsItem_def)
  have some: "(\<exists>d \<in> set (deltas sampleRefsItem). uuid_toString (delta_getUuid d) = ''d2'') \<and>
      isHandleOf sampleStore (Some 0)"
    by (simp add: sampleRefsItem_def sampleStore_def isHandleOf_def)
  from importDataForDelta_effect [of sampleRefsItem "''zz''" sampleStore "Some 0"] none
  have a: "importDataForDelta sampleStore (Some 0) ''zz'' sampleRefsItem = Inr (sampleRefsItem, sampleStore)"
    by blast
  from importDataForDelta_effect [of sampleRefsItem "''d2''" sampleStore "Some 0"] some
  obtain i r' s' c where i: "i < length (deltas sampleRefsItem)"
      "uuid_toString (delta_getUuid (deltas sampleRefsItem ! i)) = ''d2''"
    and res: "importDataForDelta sampleStore (Some 0) ''d2'' sampleRefsItem = Inr (r', s')"
    and c: "deltasData r' ! i = Some c"
      "\<forall>x. derefValueTree (s'[0 := x]) (Some c) = Some (sampleStore ! 0)"
    by blast
  from i have i1: "i = 1"
    by (auto simp: sampleRefsItem_def less_Suc_eq)
  from res have r': "r' = sampleRefsItem\<lparr>deltasData := [Some 1, Some 3]\<rparr>"
    and s': "s' = [SharedObject ''data'' [(''value'', VInt 7)] [], SharedObject ''dummy'' [] [],
           SharedObject ''dummy'' [] [], SharedObject ''data'' [(''value'', VInt 7)] []]"
    by (simp_all add: sample_import)
  from c(1) have "c = 3" by (simp add: r' i1)
  with c(2) have "derefValueTree
     ([SharedObject ''data'' [(''value'', VInt 7)] [], SharedObject ''dummy'' [] [],
       SharedObject ''dummy'' [] [], SharedObject ''data'' [(''value'', VInt 7)] []]
        [0 := SharedObject ''changed'' [] []])
     (Some 3) = Some (SharedObject ''data'' [(''value'', VInt 7)] [])"
    unfolding s' by (simp add: sampleStore_def)
  with a sample_import show ?thesis by simp
qed

section \<open>What reset and deserialize leave in the pending cache (C9)\<close>

text \<open>
  C9. \<^verbatim>\<open>reset()\<close> and \<^verbatim>\<open>deserialize\<close> leave the pending cache \<open>deltasData\<close> as it
  was, so after either of them \<^verbatim>\<open>serializeDeltaData (i)\<close> still returns the payload
  cached before, for every index \<open>i\<close> within the old cache.
\<close>

theorem pending_cache_survives_reset:
  assumes "0 \<le> i" and "i < int (length (deltasData r))"
  shows "deltasData (reset r) = deltasData r \<and>
         deltasData (deserialize dd cl tree r) = deltasData r \<and>
         serializeDeltaData (reset r) p i = Inr (deltasData r ! nat i) \<and>
         serializeDeltaData (deserialize dd cl tree r) p i = Inr (deltasData r ! nat i)"
  using assms
  by (simp add: deltasData_deserialize serializeDeltaData_def array_get_def reset_def)

text \<open>
  The theorem at the sample item, loaded from a tree with no delta: the item has no
  delta left and index 1 still reads the old payload.
\<close>

theorem pending_cache_survives_reset_witness:
  "deltasData (reset sampleItem) = [newValueTree ''path'', newValueTree ''mute''] \<and>
   deltas (deserialize sampleDeltaDeserialize sampleCreateLogicFor
     (Some (SharedObject ''revisionItem'' [] [])) sampleItem) = [] \<and>
   serializeDeltaData (deserialize sampleDeltaDeserialize sampleCreateLogicFor
     (Some (SharedObject ''revisionItem'' [] [])) sampleItem) [] 1 = Inr (newValueTree ''mute'')"
proof -
  have h: "(0::int) \<le> 1" "1 < int (length (deltasData sampleItem))"
    by (simp_all add: sampleItem_def)
  have "deltas (deserialize sampleDeltaDeserialize sampleCreateLogicFor
     (Some (SharedObject ''revisionItem'' [] [])) sampleItem) = []"
    by (simp add: deserialize_def Let_def hasType_def isValid_def childTrees_def reset_def
        deserializeVCSUuid_def Serialization_VCS_revisionItem_def)
  with pending_cache_survives_reset [OF h, of sampleDeltaDeserialize sampleCreateLogicFor
      "Some (SharedObject ''revisionItem'' [] [])" "[]"]
  show ?thesis by (simp add: sampleItem_def)
qed

section \<open>Construction from a null TrackedItem (C10)\<close>

text \<open>
  C10. Constructing a RevisionItem with a null TrackedItem pointer and the type tag
  \<open>t\<close> succeeds and yields an item with no delta, an empty pending cache, an empty
  name, no DiffLogic bound, and \<^verbatim>\<open>getType()\<close> equal to \<open>t\<close>.
\<close>

theorem RevisionItem_null_target:
  "\<exists>r. RevisionItem u0 t None = Inr r \<and> getNumDeltas r = 0 \<and> deltasData r = [] \<and>
       getVCSName r = [] \<and> getDiffLogic r = None \<and> getType r = t"
  by (simp add: RevisionItem_def getNumDeltas_def getVCSName_def getDiffLogic_def getType_def)

text \<open>The theorem at the type tag Removed.\<close>

theorem RevisionItem_null_target_witness:
  "RevisionItem (Uuid ''fresh'') Removed None =
     Inr \<lparr>vcsItemType = Removed, description = [], vcsUuid = Uuid ''fresh'', logic = None,
          deltas = [], deltasData = []\<rparr>"
  using RevisionItem_null_target [of "Uuid ''fresh''" Removed]
  by (simp add: RevisionItem_def)

end
